theory Spec2Isabelle
  imports Main "HOL-Library.Sublist"
begin

section \<open>Data model of the integrated agent framework\<close>

text \<open>
  The development embeds \<^verbatim>\<open>integrated_agent_framework.py\<close>. Python dictionaries whose
  keys are fixed by the code become records; a key that the code reads with \<^verbatim>\<open>.get\<close>
  is an \<open>option\<close> field, \<open>None\<close> standing for a missing key or the value \<^verbatim>\<open>None\<close>.
  Python integers are unbounded, hence \<open>int\<close>. Strings are \<open>char list\<close>; a Python
  string is read as its UTF-8 bytes.
\<close>

datatype AgentType = CODE | RESEARCH | PLANNING | REFLECTION

datatype error = TypeError | KeyError | ConfigurationError

record result_dict =
  content :: "string option"
  citations :: "string list option"

record tool_call_dict =
  tc_id :: "string option"
  tc_event_type :: "string option"
  tc_name :: "string option"
  tc_response :: "string option"
  tc_details :: "(string \<times> string) list option"

record history_dict =
  agent :: string
  result :: result_dict
  tool_calls :: "tool_call_dict list option"

record context_dict =
  c_project_id :: string
  c_agent_id :: string
  c_history :: "string list"
  c_node_ids :: "string list"
  c_additional_context :: string

record AgentState =
  query :: string
  "context" :: context_dict
  results :: "result_dict list"
  errors :: "string list option"
  remaining_steps :: int
  current_agent :: string
  history :: "history_dict list"

record IntegratedAgentConfig =
  max_iterations :: int
  agent_types :: "AgentType list"
  reflection_enabled :: bool
  fault_tolerance_level :: int
  tools :: "string list"

text \<open>
  Modelled from the spec: the types \<^verbatim>\<open>ChatContext\<close>, \<^verbatim>\<open>ToolCallResponse\<close> and
  \<^verbatim>\<open>ChatAgentResponse\<close>, which the module imports from \<^verbatim>\<open>chat_agent\<close> and which are not in
  src/. A request carries the query, the project identifier, the identifier of the
  current agent, the prior history, an optional list of node identifiers and a text of
  additional context; a tool-call record carries a call identifier, an event kind, a
  tool name, the tool's response and structured detail; a response carries the text, the
  tool calls and the citations. The field names are those that \<^verbatim>\<open>run\<close> and
  \<^verbatim>\<open>_extract_tool_calls\<close> use. \<^verbatim>\<open>_extract_citations\<close> returns \<^verbatim>\<open>list(set(citations))\<close>, whose
  order Python leaves open, so the citations of a response are a set.
\<close>

record ChatContext =
  ctx_query :: string
  project_id :: string
  curr_agent_id :: string
  ctx_history :: "string list"
  node_ids :: "string list option"
  additional_context :: string

record ToolCallResponse =
  call_id :: string
  event_type :: string
  tool_name :: string
  tool_response :: string
  tool_call_details :: "(string \<times> string) list"

record ChatAgentResponse =
  response :: string
  resp_tool_calls :: "ToolCallResponse list"
  resp_citations :: "string set"

section \<open>Error classification and the reflection router\<close>

text \<open>
  \<^verbatim>\<open>str.lower()\<close>: the letters \<open>A\<close> to \<open>Z\<close> go to \<open>a\<close> to \<open>z\<close>, every other byte stays.
  The keywords are ASCII, and no byte of the UTF-8 form of a character outside ASCII is
  an ASCII letter, so the bytes decide a keyword match as the code points do.
\<close>

definition lower_char :: "char \<Rightarrow> char" where
  "lower_char c =
     (case map_of (zip ''ABCDEFGHIJKLMNOPQRSTUVWXYZ'' ''abcdefghijklmnopqrstuvwxyz'') c of
        Some d \<Rightarrow> d
      | None \<Rightarrow> c)"

definition lower :: "string \<Rightarrow> string" where
  "lower s = map lower_char s"

text \<open>\<^verbatim>\<open>kw in s\<close> on strings: \<open>kw\<close> occurs in \<open>s\<close> at some position.\<close>

fun contains :: "string \<Rightarrow> string \<Rightarrow> bool" where
  "contains kw [] = (kw = [])"
| "contains kw (c # cs) = (prefix kw (c # cs) \<or> contains kw cs)"

definition classify_error :: "string \<Rightarrow> string" where
  "classify_error error_msg =
     (if list_ex (\<lambda>kw. contains kw (lower error_msg))
           [''code'', ''syntax'', ''runtime'', ''exception''] then ''code''
      else if list_ex (\<lambda>kw. contains kw (lower error_msg))
           [''research'', ''information'', ''data''] then ''research''
      else if list_ex (\<lambda>kw. contains kw (lower error_msg))
           [''plan'', ''strategy'', ''approach''] then ''planning''
      else ''code'')"

text \<open>
  \<^verbatim>\<open>state.get("errors") and len(state["errors"]) > 0\<close> holds for a non-empty list only;
  \<^verbatim>\<open>state["errors"][-1]\<close> is then its last element.
\<close>

definition reflection_router :: "IntegratedAgentConfig \<Rightarrow> AgentState \<Rightarrow> string" where
  "reflection_router config state =
     (if remaining_steps state \<le> 0 then ''end''
      else
        (case errors state of
           Some (e # es) \<Rightarrow>
             (let error_type = classify_error (last (e # es)) in
              if error_type = ''code'' \<and> CODE \<in> set (agent_types config) then ''code''
              else if error_type = ''research'' \<and> RESEARCH \<in> set (agent_types config)
                then ''research''
              else if error_type = ''planning'' \<and> PLANNING \<in> set (agent_types config)
                then ''planning''
              else ''end'')
         | _ \<Rightarrow> ''end''))"

section \<open>The agent nodes\<close>

text \<open>
  Each node sets \<^verbatim>\<open>current_agent\<close> and then runs its \<^verbatim>\<open>try\<close> block. The block begins
  with the agent's own logic (a placeholder in the source); the argument \<open>fault\<close> is the
  outcome of that logic: \<open>None\<close> when it runs through, \<open>Some e\<close> when it raises an
  exception whose \<^verbatim>\<open>str\<close> is \<open>e\<close>. The \<^verbatim>\<open>except\<close> block of each node is a function of its
  own. In it \<^verbatim>\<open>state.get("errors", []) + [error_msg]\<close> raises \<^verbatim>\<open>TypeError\<close> when the value
  under \<^verbatim>\<open>errors\<close> is \<^verbatim>\<open>None\<close>; that exception leaves the node.
\<close>

definition add_error :: "string \<Rightarrow> AgentState \<Rightarrow> error + AgentState" where
  "add_error error_msg state =
     (case errors state of
        None \<Rightarrow> Inl TypeError
      | Some errs \<Rightarrow> Inr (state\<lparr>errors := Some (errs @ [error_msg])\<rparr>))"

definition recover :: "IntegratedAgentConfig \<Rightarrow> string \<Rightarrow> AgentState \<Rightarrow> AgentState" where
  "recover config text state =
     (if fault_tolerance_level config \<ge> 2
      then state\<lparr>results := results state @ [\<lparr>content = Some text, citations = Some []\<rparr>]\<rparr>
      else state)"

definition update_state :: "string \<Rightarrow> result_dict \<Rightarrow> AgentState \<Rightarrow> AgentState" where
  "update_state name res state =
     state\<lparr>results := results state @ [res],
           history := history state @ [\<lparr>agent = name, result = res, tool_calls = Some []\<rparr>],
           remaining_steps := remaining_steps state - 1\<rparr>"

definition code_agent_except ::
  "IntegratedAgentConfig \<Rightarrow> string \<Rightarrow> AgentState \<Rightarrow> error + AgentState" where
  "code_agent_except config e state =
     map_sum id
       (recover config ''The code agent encountered an error but is attempting to recover.'')
       (add_error (''Error in code agent: '' @ e) state)"

definition code_agent_node ::
  "IntegratedAgentConfig \<Rightarrow> string option \<Rightarrow> AgentState \<Rightarrow> error + AgentState" where
  "code_agent_node config fault state0 =
     (let state = state0\<lparr>current_agent := ''code_agent''\<rparr> in
      case fault of
        None \<Rightarrow>
          Inr (update_state ''code_agent''
                 \<lparr>content = Some (''Code agent processed query: '' @ query state),
                  citations = Some []\<rparr> state)
      | Some e \<Rightarrow> code_agent_except config e state)"

definition research_agent_except ::
  "IntegratedAgentConfig \<Rightarrow> string \<Rightarrow> AgentState \<Rightarrow> error + AgentState" where
  "research_agent_except config e state =
     map_sum id
       (recover config
          ''The research agent encountered an error but is attempting to recover.'')
       (add_error (''Error in research agent: '' @ e) state)"

definition research_agent_node ::
  "IntegratedAgentConfig \<Rightarrow> string option \<Rightarrow> AgentState \<Rightarrow> error + AgentState" where
  "research_agent_node config fault state0 =
     (let state = state0\<lparr>current_agent := ''research_agent''\<rparr> in
      case fault of
        None \<Rightarrow>
          Inr (update_state ''research_agent''
                 \<lparr>content = Some (''Research agent processed query: '' @ query state),
                  citations = Some [''research_source_1'', ''research_source_2'']\<rparr> state)
      | Some e \<Rightarrow> research_agent_except config e state)"

definition planning_agent_except ::
  "IntegratedAgentConfig \<Rightarrow> string \<Rightarrow> AgentState \<Rightarrow> error + AgentState" where
  "planning_agent_except config e state =
     map_sum id
       (recover config
          ''The planning agent encountered an error but is attempting to recover.'')
       (add_error (''Error in planning agent: '' @ e) state)"

definition planning_agent_node ::
  "IntegratedAgentConfig \<Rightarrow> string option \<Rightarrow> AgentState \<Rightarrow> error + AgentState" where
  "planning_agent_node config fault state0 =
     (let state = state0\<lparr>current_agent := ''planning_agent''\<rparr> in
      case fault of
        None \<Rightarrow>
          Inr (update_state ''planning_agent''
                 \<lparr>content = Some (''Planning agent processed query: '' @ query state),
                  citations = Some []\<rparr> state)
      | Some e \<Rightarrow> planning_agent_except config e state)"

text \<open>The reflection node adds no recovery entry, whatever the fault tolerance level.\<close>

definition reflection_agent_except ::
  "IntegratedAgentConfig \<Rightarrow> string \<Rightarrow> AgentState \<Rightarrow> error + AgentState" where
  "reflection_agent_except config e state =
     add_error (''Error in reflection agent: '' @ e) state"

definition reflection_agent_node ::
  "IntegratedAgentConfig \<Rightarrow> string option \<Rightarrow> AgentState \<Rightarrow> error + AgentState" where
  "reflection_agent_node config fault state0 =
     (let state = state0\<lparr>current_agent := ''reflection_agent''\<rparr> in
      case fault of
        None \<Rightarrow>
          Inr (update_state ''reflection_agent''
                 (case errors state of
                    Some (e # es) \<Rightarrow>
                      \<lparr>content = Some (''Reflection agent identified issues: '' @ last (e # es)),
                       citations = Some []\<rparr>
                  | _ \<Rightarrow>
                      \<lparr>content = Some
                         ''Reflection agent reviewed the results and found them satisfactory.'',
                       citations = Some []\<rparr>) state)
      | Some e \<Rightarrow> reflection_agent_except config e state)"

section \<open>Response assembly\<close>

text \<open>The loop of \<^verbatim>\<open>_format_response\<close> with its accumulator \<^verbatim>\<open>response_parts\<close>.\<close>

fun collect_parts :: "result_dict list \<Rightarrow> string list \<Rightarrow> string list" where
  "collect_parts [] response_parts = response_parts"
| "collect_parts (r # rs) response_parts =
     collect_parts rs
       (case content r of
          Some c \<Rightarrow> if c \<noteq> [] then response_parts @ [c] else response_parts
        | None \<Rightarrow> response_parts)"

text \<open>\<^verbatim>\<open>sep.join(parts)\<close>.\<close>

fun join :: "string \<Rightarrow> string list \<Rightarrow> string" where
  "join sep [] = []"
| "join sep [x] = x"
| "join sep (x # y # ys) = x @ sep @ join sep (y # ys)"

definition format_response :: "AgentState \<Rightarrow> string" where
  "format_response result_state =
     (if results result_state = [] then ''No results were produced by the agent.''
      else join [CHR 0x0A, CHR 0x0A] (collect_parts (results result_state) []))"

definition tool_call_response :: "tool_call_dict \<Rightarrow> ToolCallResponse" where
  "tool_call_response tc =
     \<lparr>call_id = (case tc_id tc of Some v \<Rightarrow> v | None \<Rightarrow> ''unknown''),
      event_type = (case tc_event_type tc of Some v \<Rightarrow> v | None \<Rightarrow> ''call''),
      tool_name = (case tc_name tc of Some v \<Rightarrow> v | None \<Rightarrow> ''unknown''),
      tool_response = (case tc_response tc of Some v \<Rightarrow> v | None \<Rightarrow> []),
      tool_call_details = (case tc_details tc of Some v \<Rightarrow> v | None \<Rightarrow> [])\<rparr>"

fun collect_tool_calls :: "history_dict list \<Rightarrow> ToolCallResponse list \<Rightarrow> ToolCallResponse list" where
  "collect_tool_calls [] acc = acc"
| "collect_tool_calls (event # events) acc =
     collect_tool_calls events
       (case tool_calls event of
          Some (tc # tcs) \<Rightarrow> acc @ map tool_call_response (tc # tcs)
        | _ \<Rightarrow> acc)"

definition extract_tool_calls :: "AgentState \<Rightarrow> ToolCallResponse list" where
  "extract_tool_calls result_state = collect_tool_calls (history result_state) []"

definition extract_citations :: "AgentState \<Rightarrow> string set" where
  "extract_citations result_state =
     set (concat (map (\<lambda>r. case citations r of Some cs \<Rightarrow> cs | None \<Rightarrow> [])
                      (results result_state)))"

definition render :: "AgentState \<Rightarrow> ChatAgentResponse" where
  "render result_state =
     \<lparr>response = format_response result_state,
      resp_tool_calls = extract_tool_calls result_state,
      resp_citations = extract_citations result_state\<rparr>"

section \<open>The workflow graph\<close>

text \<open>
  The graph that \<^verbatim>\<open>_build_workflow\<close> assembles through the \<^verbatim>\<open>StateGraph\<close> interface:
  named nodes with their functions, an entry point, edges (\<open>None\<close> is \<^verbatim>\<open>END\<close>) and
  conditional edges, each a routing function with its table from routing keys to
  targets.
\<close>

datatype node = code_agent | research_agent | planning_agent | reflection_agent

type_synonym node_fn = "string option \<Rightarrow> AgentState \<Rightarrow> error + AgentState"

record StateGraph =
  nodes :: "(node \<times> node_fn) list"
  entry_point :: "node option"
  edges :: "(node \<times> node option) list"
  conditional_edges :: "(node \<times> (AgentState \<Rightarrow> string) \<times> (string \<times> node option) list) list"

abbreviation END :: "node option" where
  "END \<equiv> None"

definition empty_graph :: StateGraph where
  "empty_graph = \<lparr>nodes = [], entry_point = None, edges = [], conditional_edges = []\<rparr>"

definition add_node :: "node \<Rightarrow> node_fn \<Rightarrow> StateGraph \<Rightarrow> StateGraph" where
  "add_node n f workflow = workflow\<lparr>nodes := nodes workflow @ [(n, f)]\<rparr>"

definition set_entry_point :: "node \<Rightarrow> StateGraph \<Rightarrow> StateGraph" where
  "set_entry_point n workflow = workflow\<lparr>entry_point := Some n\<rparr>"

definition add_edge :: "node \<Rightarrow> node option \<Rightarrow> StateGraph \<Rightarrow> StateGraph" where
  "add_edge a b workflow = workflow\<lparr>edges := edges workflow @ [(a, b)]\<rparr>"

definition add_conditional_edges ::
  "node \<Rightarrow> (AgentState \<Rightarrow> string) \<Rightarrow> (string \<times> node option) list \<Rightarrow> StateGraph \<Rightarrow> StateGraph" where
  "add_conditional_edges a path path_map workflow =
     workflow\<lparr>conditional_edges := conditional_edges workflow @ [(a, path, path_map)]\<rparr>"

definition add_workflow_edges :: "IntegratedAgentConfig \<Rightarrow> StateGraph \<Rightarrow> StateGraph" where
  "add_workflow_edges config workflow0 =
     (let workflow1 =
            (if PLANNING \<in> set (agent_types config) \<and> RESEARCH \<in> set (agent_types config)
             then add_edge planning_agent (Some research_agent) workflow0 else workflow0);
          workflow2 =
            (if RESEARCH \<in> set (agent_types config) \<and> CODE \<in> set (agent_types config)
             then add_edge research_agent (Some code_agent) workflow1 else workflow1)
      in
        if reflection_enabled config then
          (let workflow3 =
                 (if CODE \<in> set (agent_types config)
                  then add_edge code_agent (Some reflection_agent) workflow2 else workflow2)
           in add_conditional_edges reflection_agent (reflection_router config)
                [(''end'', END),
                 (''code'', if CODE \<in> set (agent_types config) then Some code_agent else END),
                 (''research'',
                  if RESEARCH \<in> set (agent_types config) then Some research_agent else END),
                 (''planning'',
                  if PLANNING \<in> set (agent_types config) then Some planning_agent else END)]
                workflow3)
        else if CODE \<in> set (agent_types config) then add_edge code_agent END workflow2
        else if RESEARCH \<in> set (agent_types config) then add_edge research_agent END workflow2
        else workflow2)"

definition build_graph :: "IntegratedAgentConfig \<Rightarrow> StateGraph" where
  "build_graph config =
     (let workflow0 = empty_graph;
          workflow1 =
            (if CODE \<in> set (agent_types config)
             then add_node code_agent (code_agent_node config) workflow0 else workflow0);
          workflow2 =
            (if RESEARCH \<in> set (agent_types config)
             then add_node research_agent (research_agent_node config) workflow1 else workflow1);
          workflow3 =
            (if PLANNING \<in> set (agent_types config)
             then add_node planning_agent (planning_agent_node config) workflow2 else workflow2);
          workflow4 =
            (if reflection_enabled config
             then add_node reflection_agent (reflection_agent_node config) workflow3
             else workflow3);
          workflow5 =
            (if PLANNING \<in> set (agent_types config) then set_entry_point planning_agent workflow4
             else if RESEARCH \<in> set (agent_types config)
               then set_entry_point research_agent workflow4
             else set_entry_point code_agent workflow4)
      in add_workflow_edges config workflow5)"

text \<open>
  Modelled from the spec: \<^verbatim>\<open>StateGraph.compile\<close> of the graph library, which is not in
  src/. Building fails with a configuration error when the entry role was not enabled
  or an edge would reference a role that is not enabled; a graph that compiles is
  immutable.
\<close>

definition registered :: "StateGraph \<Rightarrow> node option \<Rightarrow> bool" where
  "registered workflow t = (case t of None \<Rightarrow> True | Some n \<Rightarrow> n \<in> fst ` set (nodes workflow))"

definition compile :: "StateGraph \<Rightarrow> error + StateGraph" where
  "compile workflow =
     (if entry_point workflow \<noteq> None \<and> registered workflow (entry_point workflow)
         \<and> list_all (\<lambda>(a, b). registered workflow (Some a) \<and> registered workflow b)
              (edges workflow)
         \<and> list_all (\<lambda>(a, path, path_map).
                registered workflow (Some a) \<and> list_all (registered workflow) (map snd path_map))
              (conditional_edges workflow)
      then Inr workflow else Inl ConfigurationError)"

definition build_workflow :: "IntegratedAgentConfig \<Rightarrow> error + StateGraph" where
  "build_workflow config = compile (build_graph config)"

section \<open>The execution engine\<close>

text \<open>
  Modelled from the spec: the executor behind \<^verbatim>\<open>workflow.invoke\<close> and
  \<^verbatim>\<open>workflow.astream\<close> (the compiled graph of the graph library), which is not in src/.
  Its step: advance to the current node, starting at the entry node, and invoke it with
  the current state; then take the unconditional edge if there is one; otherwise, if the
  node has a conditional edge, ask its routing function; otherwise the run is complete.
  The engine owns the step budget, the field \<^verbatim>\<open>remaining_steps\<close> of the state. It
  decrements the budget itself, once per node invocation: after an invocation the budget
  is the budget before it less one, whatever the node has written there, so that a
  node's own decrement is not counted twice and a node that does not decrement is
  counted all the same. It halts before an invocation that would take the budget below
  zero: with a budget of zero or less no node is invoked and the run is complete (the
  hard ceiling). The streaming mode produces one state per node invocation. A node that
  is not registered, or a routing key that the table of a conditional edge lacks,
  raises \<^verbatim>\<open>KeyError\<close>.

  \<open>faults k\<close> is the outcome of the agent logic in the \<open>k\<close>-th node invocation of a run
  (counted from 0). \<open>fuel\<close> bounds the node invocations followed, and \<open>None\<close> says the run
  has not returned within them.
\<close>

definition invoke_node :: "StateGraph \<Rightarrow> node \<Rightarrow> node_fn" where
  "invoke_node workflow n fault state =
     (case map_of (nodes workflow) n of
        None \<Rightarrow> Inl KeyError
      | Some f \<Rightarrow> f fault state)"

definition next_node :: "StateGraph \<Rightarrow> node \<Rightarrow> AgentState \<Rightarrow> error + node option" where
  "next_node workflow n state =
     (case map_of (edges workflow) n of
        Some t \<Rightarrow> Inr t
      | None \<Rightarrow>
          (case map_of (conditional_edges workflow) n of
             None \<Rightarrow> Inr END
           | Some (path, path_map) \<Rightarrow>
               (case map_of path_map (path state) of
                  Some t \<Rightarrow> Inr t
                | None \<Rightarrow> Inl KeyError)))"

definition step ::
  "StateGraph \<Rightarrow> node \<Rightarrow> string option \<Rightarrow> AgentState \<Rightarrow> error + node option \<times> AgentState" where
  "step workflow n fault state =
     (case invoke_node workflow n fault state of
        Inl e \<Rightarrow> Inl e
      | Inr state' \<Rightarrow>
          (let state'' = state'\<lparr>remaining_steps := remaining_steps state - 1\<rparr> in
           case next_node workflow n state'' of
             Inl e \<Rightarrow> Inl e
           | Inr t \<Rightarrow> Inr (t, state'')))"

text \<open>
  \<open>invoke\<close> returns the terminal state, and with it the number of node invocations
  made (\<open>k\<close> counts them).
\<close>

fun invoke ::
  "nat \<Rightarrow> StateGraph \<Rightarrow> (nat \<Rightarrow> string option) \<Rightarrow> node option \<Rightarrow> nat \<Rightarrow> AgentState
     \<Rightarrow> (error + AgentState \<times> nat) option" where
  "invoke fuel workflow faults None k state = Some (Inr (state, k))"
| "invoke 0 workflow faults (Some n) k state =
     (if remaining_steps state \<le> 0 then Some (Inr (state, k)) else None)"
| "invoke (Suc fuel) workflow faults (Some n) k state =
     (if remaining_steps state \<le> 0 then Some (Inr (state, k))
      else
        (case step workflow n (faults k) state of
           Inl e \<Rightarrow> Some (Inl e)
         | Inr (t, state') \<Rightarrow> invoke fuel workflow faults t (Suc k) state'))"

text \<open>
  The stream pulled \<open>fuel\<close> times: the states it has yielded, and how it stands.
\<close>

datatype stream_end = Finished | Raised error | Pending

fun astream ::
  "nat \<Rightarrow> StateGraph \<Rightarrow> (nat \<Rightarrow> string option) \<Rightarrow> node option \<Rightarrow> nat \<Rightarrow> AgentState
     \<Rightarrow> AgentState list \<times> stream_end" where
  "astream fuel workflow faults None k state = ([], Finished)"
| "astream 0 workflow faults (Some n) k state =
     ([], if remaining_steps state \<le> 0 then Finished else Pending)"
| "astream (Suc fuel) workflow faults (Some n) k state =
     (if remaining_steps state \<le> 0 then ([], Finished)
      else
        (case step workflow n (faults k) state of
           Inl e \<Rightarrow> ([], Raised e)
         | Inr (t, state') \<Rightarrow>
             (case astream fuel workflow faults t (Suc k) state' of
                (events, r) \<Rightarrow> (state' # events, r))))"

section \<open>Running the agent\<close>

definition initial_state :: "IntegratedAgentConfig \<Rightarrow> ChatContext \<Rightarrow> AgentState" where
  "initial_state config ctx =
     \<lparr>query = ctx_query ctx,
      context =
        \<lparr>c_project_id = project_id ctx,
         c_agent_id = curr_agent_id ctx,
         c_history = ctx_history ctx,
         c_node_ids = (case node_ids ctx of Some ids \<Rightarrow> ids | None \<Rightarrow> []),
         c_additional_context = additional_context ctx\<rparr>,
      results = [],
      errors = Some [],
      remaining_steps = max_iterations config,
      current_agent = [],
      history = []\<rparr>"

text \<open>
  The workflow is built when the agent is constructed; a configuration error is raised
  there, before any run. \<open>run_counted\<close> is \<^verbatim>\<open>run\<close> together with the number of node
  invocations it made.
\<close>

definition run_counted ::
  "nat \<Rightarrow> IntegratedAgentConfig \<Rightarrow> ChatContext \<Rightarrow> (nat \<Rightarrow> string option)
     \<Rightarrow> (error + ChatAgentResponse \<times> nat) option" where
  "run_counted fuel config ctx faults =
     (case build_workflow config of
        Inl e \<Rightarrow> Some (Inl e)
      | Inr workflow \<Rightarrow>
          map_option (map_sum id (\<lambda>(result_state, k). (render result_state, k)))
            (invoke fuel workflow faults (entry_point workflow) 0 (initial_state config ctx)))"

definition run ::
  "nat \<Rightarrow> IntegratedAgentConfig \<Rightarrow> ChatContext \<Rightarrow> (nat \<Rightarrow> string option)
     \<Rightarrow> (error + ChatAgentResponse) option" where
  "run fuel config ctx faults = map_option (map_sum id fst) (run_counted fuel config ctx faults)"

definition run_stream ::
  "nat \<Rightarrow> IntegratedAgentConfig \<Rightarrow> ChatContext \<Rightarrow> (nat \<Rightarrow> string option)
     \<Rightarrow> ChatAgentResponse list \<times> stream_end" where
  "run_stream fuel config ctx faults =
     (case build_workflow config of
        Inl e \<Rightarrow> ([], Raised e)
      | Inr workflow \<Rightarrow>
          (case astream fuel workflow faults (entry_point workflow) 0 (initial_state config ctx) of
             (events, r) \<Rightarrow> (map render events, r)))"

section \<open>The routing decision of the specification\<close>

text \<open>
  The router as the specification words it (its section 4.3), to be compared with
  \<open>reflection_router\<close> and with the branch table that \<open>add_workflow_edges\<close> installs:
  terminate when the budget is used up; else, when there is an error, classify the most
  recent one and go to its role if that role is enabled; terminate otherwise.
\<close>

datatype RoutingDecision = Terminate | GoTo AgentType

definition role_of_key :: "string \<Rightarrow> AgentType option" where
  "role_of_key key =
     (if key = ''code'' then Some CODE
      else if key = ''research'' then Some RESEARCH
      else if key = ''planning'' then Some PLANNING
      else None)"

fun role_of_node :: "node \<Rightarrow> AgentType" where
  "role_of_node code_agent = CODE"
| "role_of_node research_agent = RESEARCH"
| "role_of_node planning_agent = PLANNING"
| "role_of_node reflection_agent = REFLECTION"

definition decision_of_key :: "string \<Rightarrow> RoutingDecision" where
  "decision_of_key key = (case role_of_key key of None \<Rightarrow> Terminate | Some role \<Rightarrow> GoTo role)"

definition decision_of_target :: "node option \<Rightarrow> RoutingDecision" where
  "decision_of_target t = (case t of None \<Rightarrow> Terminate | Some n \<Rightarrow> GoTo (role_of_node n))"

definition spec_route :: "IntegratedAgentConfig \<Rightarrow> AgentState \<Rightarrow> RoutingDecision" where
  "spec_route config state =
     (if remaining_steps state \<le> 0 then Terminate
      else
        (case errors state of
           Some (e # es) \<Rightarrow>
             (case role_of_key (classify_error (last (e # es))) of
                Some role \<Rightarrow> if role \<in> set (agent_types config) then GoTo role else Terminate
              | None \<Rightarrow> Terminate)
         | _ \<Rightarrow> Terminate))"

section \<open>Scenarios\<close>

text \<open>
  The configuration of the specification's scenarios, with the iteration budget left
  open, and a request.
\<close>

definition scenario_config :: "int \<Rightarrow> IntegratedAgentConfig" where
  "scenario_config n =
     \<lparr>max_iterations = n, agent_types = [PLANNING, RESEARCH, CODE],
      reflection_enabled = True, fault_tolerance_level = 2, tools = []\<rparr>"

definition login_request :: ChatContext where
  "login_request =
     \<lparr>ctx_query = ''build a login page'', project_id = ''p1'',
      curr_agent_id = ''integrated_agent'', ctx_history = [], node_ids = None,
      additional_context = []\<rparr>"

text \<open>
  States for examples: the initial state of the scenario, the same with two errors on
  record and budget left, and with the budget used up.
\<close>

definition fresh_state :: AgentState where
  "fresh_state = initial_state (scenario_config 5) login_request"

definition state_with_errors :: AgentState where
  "state_with_errors =
     fresh_state\<lparr>errors := Some [''Error in code agent: boom'', ''missing information''],
                 remaining_steps := 3\<rparr>"

definition spent_state :: AgentState where
  "spent_state = state_with_errors\<lparr>remaining_steps := 0\<rparr>"

section \<open>The graph that is built\<close>

lemma classify_error_range:
  "classify_error m = ''code'' \<or> classify_error m = ''research'' \<or> classify_error m = ''planning''"
  by (simp add: classify_error_def)

lemma router_decision: "decision_of_key (reflection_router config state) = spec_route config state"
  using classify_error_range [of "last (the (errors state))"]
  by (auto simp add: reflection_router_def spec_route_def decision_of_key_def role_of_key_def Let_def
      split: option.split list.split)

lemmas graph_defs =
  build_graph_def add_workflow_edges_def add_node_def add_edge_def set_entry_point_def
  add_conditional_edges_def empty_graph_def

lemma nodes_build_graph:
  "map_of (nodes (build_graph config)) n =
     (case n of
        code_agent \<Rightarrow>
          if CODE \<in> set (agent_types config) then Some (code_agent_node config) else None
      | research_agent \<Rightarrow>
          if RESEARCH \<in> set (agent_types config) then Some (research_agent_node config) else None
      | planning_agent \<Rightarrow>
          if PLANNING \<in> set (agent_types config) then Some (planning_agent_node config) else None
      | reflection_agent \<Rightarrow>
          if reflection_enabled config then Some (reflection_agent_node config) else None)"
  by (cases n) (simp_all add: graph_defs Let_def)

lemma edges_build_graph:
  "map_of (edges (build_graph config)) n =
     (case n of
        planning_agent \<Rightarrow>
          if PLANNING \<in> set (agent_types config) \<and> RESEARCH \<in> set (agent_types config)
          then Some (Some research_agent) else None
      | research_agent \<Rightarrow>
          if RESEARCH \<in> set (agent_types config) \<and> CODE \<in> set (agent_types config)
          then Some (Some code_agent)
          else if RESEARCH \<in> set (agent_types config) \<and> \<not> reflection_enabled config
          then Some END else None
      | code_agent \<Rightarrow>
          if CODE \<in> set (agent_types config)
          then (if reflection_enabled config then Some (Some reflection_agent) else Some END)
          else None
      | reflection_agent \<Rightarrow> None)"
  by (cases n) (simp_all add: graph_defs Let_def)

lemma conditional_edges_build_graph:
  "map_of (conditional_edges (build_graph config)) n =
     (if n = reflection_agent \<and> reflection_enabled config
      then Some (reflection_router config,
             [(''end'', END),
              (''code'', if CODE \<in> set (agent_types config) then Some code_agent else END),
              (''research'',
               if RESEARCH \<in> set (agent_types config) then Some research_agent else END),
              (''planning'',
               if PLANNING \<in> set (agent_types config) then Some planning_agent else END)])
      else None)"
  by (simp add: graph_defs Let_def)

lemma reflection_router_keys:
  "reflection_router config state \<in> {''end'', ''code'', ''research'', ''planning''}"
  by (simp add: reflection_router_def Let_def split: option.split list.split)

lemma next_node_reflection:
  assumes "reflection_enabled config"
  shows "next_node (build_graph config) reflection_agent state =
     Inr (let key = reflection_router config state in
          if key = ''code'' \<and> CODE \<in> set (agent_types config) then Some code_agent
          else if key = ''research'' \<and> RESEARCH \<in> set (agent_types config) then Some research_agent
          else if key = ''planning'' \<and> PLANNING \<in> set (agent_types config) then Some planning_agent
          else END)"
  using assms reflection_router_keys [of config state]
  by (auto simp add: next_node_def edges_build_graph conditional_edges_build_graph Let_def)

section \<open>What a node invocation does to the state\<close>

lemmas except_defs =
  code_agent_except_def research_agent_except_def planning_agent_except_def
  reflection_agent_except_def add_error_def recover_def

lemmas node_defs =
  code_agent_node_def research_agent_node_def planning_agent_node_def
  reflection_agent_node_def update_state_def

lemma invoke_node_cases:
  assumes "invoke_node (build_graph config) n f s = Inr s'"
  shows "(n = code_agent \<and> code_agent_node config f s = Inr s')
       \<or> (n = research_agent \<and> research_agent_node config f s = Inr s')
       \<or> (n = planning_agent \<and> planning_agent_node config f s = Inr s')
       \<or> (n = reflection_agent \<and> reflection_agent_node config f s = Inr s')"
  using assms
  by (cases n) (simp_all add: invoke_node_def nodes_build_graph split: if_splits)

lemma node_frame:
  assumes "code_agent_node config f s = Inr s' \<or> research_agent_node config f s = Inr s'
         \<or> planning_agent_node config f s = Inr s' \<or> reflection_agent_node config f s = Inr s'"
  shows "query s' = query s \<and> context s' = context s"
  using assms
  by (auto simp add: node_defs except_defs Let_def split: option.splits if_splits)

lemma node_budget:
  assumes "code_agent_node config f s = Inr s' \<or> research_agent_node config f s = Inr s'
         \<or> planning_agent_node config f s = Inr s' \<or> reflection_agent_node config f s = Inr s'"
  shows "remaining_steps s' = remaining_steps s - (if f = None then 1 else 0)"
  using assms
  by (auto simp add: node_defs except_defs Let_def split: option.splits if_splits)

lemma node_errors:
  assumes "code_agent_node config f s = Inr s' \<or> research_agent_node config f s = Inr s'
         \<or> planning_agent_node config f s = Inr s' \<or> reflection_agent_node config f s = Inr s'"
  shows "errors s' = (case f of None \<Rightarrow> errors s | Some e \<Rightarrow> Some (the (errors s) @ [last (the (errors s'))]))
       \<and> (f \<noteq> None \<longrightarrow> errors s \<noteq> None)"
  using assms
  by (auto simp add: node_defs except_defs Let_def split: option.splits if_splits)

lemma node_history:
  assumes "code_agent_node config f s = Inr s' \<or> research_agent_node config f s = Inr s'
         \<or> planning_agent_node config f s = Inr s' \<or> reflection_agent_node config f s = Inr s'"
  shows "history s' = history s
       \<or> (\<exists>h. history s' = history s @ [h] \<and> tool_calls h = Some [])"
  using assms
  by (auto simp add: node_defs except_defs Let_def split: option.splits if_splits)

lemma node_total:
  assumes "errors s \<noteq> None"
  shows "\<exists>s'. code_agent_node config f s = Inr s'"
    and "\<exists>s'. research_agent_node config f s = Inr s'"
    and "\<exists>s'. planning_agent_node config f s = Inr s'"
    and "\<exists>s'. reflection_agent_node config f s = Inr s'"
  using assms
  by (auto simp add: node_defs except_defs Let_def split: option.splits)

section \<open>Runs of the engine\<close>

lemma astream_Suc:
  "0 < remaining_steps state \<Longrightarrow> step g n (faults k) state = Inr (t, s') \<Longrightarrow>
   astream (Suc fuel) g faults (Some n) k state =
     (s' # fst (astream fuel g faults t (Suc k) s'), snd (astream fuel g faults t (Suc k) s'))"
  by (simp add: case_prod_unfold)

lemma step_Inr:
  "step g n f s = Inr (t, s'') \<Longrightarrow>
   \<exists>s'. invoke_node g n f s = Inr s'
      \<and> s'' = s'\<lparr>remaining_steps := remaining_steps s - 1\<rparr>
      \<and> next_node g n s'' = Inr t"
  by (auto simp add: step_def Let_def split: sum.splits)

lemma step_remaining:
  "step g n f s = Inr (t, s'') \<Longrightarrow> remaining_steps s'' = remaining_steps s - 1"
  using step_Inr [of g n f s t s''] by auto

text \<open>
  A property that every node invocation keeps, and that does not depend on the budget,
  holds of every streamed state.
\<close>

lemma astream_invariant:
  assumes inv: "\<And>n f s s'. invoke_node g n f s = Inr s' \<Longrightarrow> I s \<Longrightarrow> I s'"
    and upd: "\<And>s r. I s \<Longrightarrow> I (s\<lparr>remaining_steps := r\<rparr>)"
  shows "I state \<Longrightarrow> \<forall>s \<in> set (fst (astream fuel g faults cur k state)). I s"
proof (induction fuel arbitrary: cur k state)
  case 0
  then show ?case by (cases cur) simp_all
next
  case (Suc fuel)
  show ?case
  proof (cases cur)
    case None
    then show ?thesis by simp
  next
    case (Some n)
    show ?thesis
    proof (cases "remaining_steps state \<le> 0")
      case True
      with Some show ?thesis by simp
    next
      case False
      show ?thesis
      proof (cases "step g n (faults k) state")
        case (Inl e)
        with Some False show ?thesis by simp
      next
        case (Inr p)
        obtain t s'' where p: "p = (t, s'')" by (cases p)
        from Inr p step_Inr [of g n "faults k" state t s''] obtain s' where
          "invoke_node g n (faults k) state = Inr s'"
          "s'' = s'\<lparr>remaining_steps := remaining_steps state - 1\<rparr>" by auto
        with inv upd Suc.prems have s'': "I s''" by blast
        from Suc.IH [OF s''] have "\<forall>s \<in> set (fst (astream fuel g faults t (Suc k) s'')). I s" .
        with Some False Inr p s'' show ?thesis by (simp add: case_prod_unfold)
      qed
    qed
  qed
qed

text \<open>
  The synchronous run and the stream follow the same steps: the run returns when the
  stream is finished, with the last streamed state (the initial state when nothing was
  streamed) and as many invocations as there are streamed states; it raises when the
  stream raises; it has not returned while the stream is pending.
\<close>

lemma invoke_astream:
  "invoke fuel g faults cur k state =
     (case astream fuel g faults cur k state of
        (events, Finished) \<Rightarrow> Some (Inr (last (state # events), k + length events))
      | (events, Raised e) \<Rightarrow> Some (Inl e)
      | (events, Pending) \<Rightarrow> None)"
proof (induction fuel arbitrary: cur k state)
  case 0
  then show ?case by (cases cur) simp_all
next
  case (Suc fuel)
  show ?case
  proof (cases cur)
    case None
    then show ?thesis by simp
  next
    case (Some n)
    show ?thesis
    proof (cases "remaining_steps state \<le> 0")
      case True
      with Some show ?thesis by simp
    next
      case False
      show ?thesis
      proof (cases "step g n (faults k) state")
        case (Inl e)
        with Some False show ?thesis by simp
      next
        case (Inr p)
        obtain t s' where p: "p = (t, s')" by (cases p)
        with Some False Inr Suc.IH [of t "Suc k" s'] show ?thesis
          by (simp split: prod.split stream_end.split)
      qed
    qed
  qed
qed

text \<open>
  The hard ceiling: whatever the graph and its nodes are, the engine makes no more
  invocations than the budget it starts with; the budget falls by exactly one with each
  invocation; and fuel for as many invocations as the budget allows is enough for the
  run to come to its end.
\<close>

lemma astream_ceiling:
  "int (length (fst (astream fuel g faults cur k state))) \<le> max 0 (remaining_steps state)
   \<and> remaining_steps (last (state # fst (astream fuel g faults cur k state)))
       = remaining_steps state - int (length (fst (astream fuel g faults cur k state)))"
proof (induction fuel arbitrary: cur k state)
  case 0
  then show ?case by (cases cur) simp_all
next
  case (Suc fuel)
  show ?case
  proof (cases cur)
    case None
    then show ?thesis by simp
  next
    case (Some n)
    show ?thesis
    proof (cases "remaining_steps state \<le> 0")
      case True
      with Some show ?thesis by simp
    next
      case False
      show ?thesis
      proof (cases "step g n (faults k) state")
        case (Inl e)
        with Some False show ?thesis by simp
      next
        case (Inr p)
        obtain t s' where p: "p = (t, s')" by (cases p)
        from Inr p have st: "step g n (faults k) state = Inr (t, s')" by simp
        from step_remaining [OF st] have r: "remaining_steps s' = remaining_steps state - 1" .
        from False have pos: "0 < remaining_steps state" by simp
        from Suc.IH [of t "Suc k" s'] r pos show ?thesis
          unfolding Some astream_Suc [where faults = faults and k = k, OF pos st] by simp
      qed
    qed
  qed
qed

lemma astream_returns:
  "nat (remaining_steps state) \<le> fuel \<Longrightarrow> snd (astream fuel g faults cur k state) \<noteq> Pending"
proof (induction fuel arbitrary: cur k state)
  case 0
  then show ?case by (cases cur) simp_all
next
  case (Suc fuel)
  show ?case
  proof (cases cur)
    case None
    then show ?thesis by simp
  next
    case (Some n)
    show ?thesis
    proof (cases "remaining_steps state \<le> 0")
      case True
      with Some show ?thesis by simp
    next
      case False
      show ?thesis
      proof (cases "step g n (faults k) state")
        case (Inl e)
        with Some False show ?thesis by simp
      next
        case (Inr p)
        obtain t s' where p: "p = (t, s')" by (cases p)
        from Inr p have st: "step g n (faults k) state = Inr (t, s')" by simp
        from step_remaining [OF st] Suc.prems False have "nat (remaining_steps s') \<le> fuel"
          by simp
        from Suc.IH [OF this, of t "Suc k"] False show ?thesis
          unfolding Some using astream_Suc [where faults = faults and k = k, OF _ st, of fuel]
          by simp
      qed
    qed
  qed
qed

lemma astream_started:
  "snd (astream fuel g faults (Some n) k state) = Finished \<Longrightarrow> 0 < remaining_steps state
     \<Longrightarrow> fst (astream fuel g faults (Some n) k state) \<noteq> []"
  by (cases fuel) (auto split: sum.splits prod.splits)

text \<open>A run that has returned returns the same with more fuel.\<close>

lemma invoke_more_fuel:
  "invoke fuel g faults cur k state = Some r \<Longrightarrow>
   invoke (fuel + m) g faults cur k state = Some r"
proof (induction fuel arbitrary: cur k state)
  case 0
  then show ?case by (cases cur; cases m) (simp_all split: if_splits)
next
  case (Suc fuel)
  show ?case
  proof (cases cur)
    case None
    with Suc.prems show ?thesis by simp
  next
    case (Some n)
    show ?thesis
    proof (cases "remaining_steps state \<le> 0")
      case True
      with Some Suc.prems show ?thesis by simp
    next
      case False
      show ?thesis
      proof (cases "step g n (faults k) state")
        case (Inl e)
        with Some False Suc.prems show ?thesis by simp
      next
        case (Inr p)
        obtain t s' where p: "p = (t, s')" by (cases p)
        with Some False Inr Suc.prems have "invoke fuel g faults t (Suc k) s' = Some r" by simp
        from Suc.IH [OF this] Some False Inr p show ?thesis by simp
      qed
    qed
  qed
qed

text \<open>A graph that compiles is the graph that was built, and it has an entry node.\<close>

lemma build_workflow_Inr:
  "build_workflow config = Inr g \<Longrightarrow> g = build_graph config \<and> entry_point g \<noteq> None"
  by (auto simp add: build_workflow_def compile_def split: if_splits)

lemma run_stream_last:
  assumes "run fuel config ctx faults = Some (Inr r)"
  shows "\<exists>responses. run_stream fuel config ctx faults = (responses, Finished)
           \<and> last (render (initial_state config ctx) # responses) = r"
proof (cases "build_workflow config")
  case (Inl e)
  with assms show ?thesis by (simp add: run_def run_counted_def)
next
  case (Inr g)
  let ?s0 = "initial_state config ctx"
  obtain events e where a: "astream fuel g faults (entry_point g) 0 ?s0 = (events, e)"
    by (cases "astream fuel g faults (entry_point g) 0 ?s0")
  have rs: "run_stream fuel config ctx faults = (map render events, e)"
    using Inr a by (simp add: run_stream_def)
  from assms Inr a invoke_astream [of fuel g faults "entry_point g" 0 ?s0]
  have "e = Finished \<and> r = render (last (?s0 # events))"
    by (cases e) (auto simp add: run_def run_counted_def)
  with rs show ?thesis by (simp add: last_map)
qed

section \<open>Properties of the error classifier\<close>

lemma contains_iff_sublist: "contains kw s \<longleftrightarrow> sublist kw s"
  by (induction s) (simp_all add: sublist_Cons_right)

lemma classify_error_examples:
  "classify_error ''a syntax error occurred'' = ''code''"
  "classify_error ''missing information'' = ''research''"
  "classify_error ''wrong strategy'' = ''planning''"
  "classify_error ''xyz'' = ''code''"
  by (simp_all add: classify_error_def lower_def lower_char_def)

text \<open>
  C5. The classifier is a total function of the message alone. It answers \<open>code\<close> when a
  keyword of the code vocabulary occurs in the lower-cased message, else \<open>research\<close>
  when one of the research vocabulary does, else \<open>planning\<close> when one of the planning
  vocabulary does, else \<open>code\<close>. Messages that agree up to letter case are classified
  alike, the answer is always one of the three role names, and the four messages of the
  specification are classified as it says.
\<close>

theorem classify_error_spec:
  "classify_error e =
     (if (\<exists>kw \<in> set [''code'', ''syntax'', ''runtime'', ''exception'']. sublist kw (lower e))
        then ''code''
      else if (\<exists>kw \<in> set [''research'', ''information'', ''data'']. sublist kw (lower e))
        then ''research''
      else if (\<exists>kw \<in> set [''plan'', ''strategy'', ''approach'']. sublist kw (lower e))
        then ''planning''
      else ''code'')
   \<and> (\<forall>e'. lower e' = lower e \<longrightarrow> classify_error e' = classify_error e)
   \<and> classify_error e \<in> {''code'', ''research'', ''planning''}
   \<and> classify_error ''a syntax error occurred'' = ''code''
   \<and> classify_error ''missing information'' = ''research''
   \<and> classify_error ''wrong strategy'' = ''planning''
   \<and> classify_error ''xyz'' = ''code''"
proof -
  have main: "classify_error e =
     (if (\<exists>kw \<in> set [''code'', ''syntax'', ''runtime'', ''exception'']. sublist kw (lower e))
        then ''code''
      else if (\<exists>kw \<in> set [''research'', ''information'', ''data'']. sublist kw (lower e))
        then ''research''
      else if (\<exists>kw \<in> set [''plan'', ''strategy'', ''approach'']. sublist kw (lower e))
        then ''planning''
      else ''code'')"
    unfolding classify_error_def list_ex_iff contains_iff_sublist by (rule refl)
  have ci: "\<forall>e'. lower e' = lower e \<longrightarrow> classify_error e' = classify_error e"
    by (simp add: classify_error_def)
  have rng: "classify_error e \<in> {''code'', ''research'', ''planning''}"
    by (simp add: classify_error_def)
  from main ci rng classify_error_examples show ?thesis by blast
qed

theorem classify_error_spec_witness:
  "classify_error ''Wrong STRATEGY: no Data'' = ''research''
   \<and> classify_error ''WRONG strategy: NO data'' = classify_error ''Wrong STRATEGY: no Data''"
  using classify_error_spec [of "''Wrong STRATEGY: no Data''"]
  by (simp add: classify_error_def lower_def lower_char_def)

section \<open>Response text\<close>

lemma collect_parts_acc:
  "collect_parts rs acc =
     acc @ concat (map (\<lambda>r. case content r of Some c \<Rightarrow> (if c = [] then [] else [c]) | None \<Rightarrow> []) rs)"
  by (induction rs arbitrary: acc) (simp_all split: option.split)

lemma join_Cons: "join sep (p # ps) = p @ concat (map (\<lambda>q. sep @ q) ps)"
  by (induction ps arbitrary: p) simp_all

lemma join_case:
  "join sep ps = (case ps of [] \<Rightarrow> [] | p # qs \<Rightarrow> p @ concat (map (\<lambda>q. sep @ q) qs))"
  by (cases ps) (simp_all add: join_Cons)

text \<open>
  C7. The response text is the fixed message when there are no results; otherwise it is
  the non-empty \<open>content\<close> fields of the results, in result order, with a blank line
  (two newline characters) between consecutive ones.
\<close>

theorem format_response_spec:
  "format_response state =
     (if results state = [] then ''No results were produced by the agent.''
      else
        (case concat (map (\<lambda>r. case content r of
                                   Some c \<Rightarrow> (if c = [] then [] else [c])
                                 | None \<Rightarrow> []) (results state)) of
           [] \<Rightarrow> []
         | p # ps \<Rightarrow> p @ concat (map (\<lambda>q. [CHR 0x0A, CHR 0x0A] @ q) ps)))"
  unfolding format_response_def collect_parts_acc join_case append_Nil by (rule refl)

theorem format_response_spec_witness:
  "format_response
     \<lparr>query = ''q'', context = \<lparr>c_project_id = ''p'', c_agent_id = ''a'', c_history = [],
        c_node_ids = [], c_additional_context = []\<rparr>,
      results = [\<lparr>content = Some ''one'', citations = None\<rparr>,
                 \<lparr>content = None, citations = Some []\<rparr>,
                 \<lparr>content = Some [], citations = Some []\<rparr>,
                 \<lparr>content = Some ''two'', citations = Some []\<rparr>],
      errors = None, remaining_steps = 0, current_agent = [], history = []\<rparr>
   = ''one'' @ [CHR 0x0A, CHR 0x0A] @ ''two''"
  using format_response_spec
    [of "\<lparr>query = ''q'', context = \<lparr>c_project_id = ''p'', c_agent_id = ''a'', c_history = [],
        c_node_ids = [], c_additional_context = []\<rparr>,
      results = [\<lparr>content = Some ''one'', citations = None\<rparr>,
                 \<lparr>content = None, citations = Some []\<rparr>,
                 \<lparr>content = Some [], citations = Some []\<rparr>,
                 \<lparr>content = Some ''two'', citations = Some []\<rparr>],
      errors = None, remaining_steps = 0, current_agent = [], history = []\<rparr>"]
  by simp

section \<open>The reflection router\<close>

text \<open>
  C4. The router decides as the specification says: it terminates whenever
  \<open>remaining_steps\<close> is at most 0, whatever the errors; otherwise, when there is an error,
  it classifies the most recent one and goes to that role exactly when the role is
  enabled; in every other case it terminates. The same holds of the node that the
  conditional edge of the built graph leads to, so a disabled target behaves as
  termination.
\<close>

theorem reflection_router_spec:
  "decision_of_key (reflection_router config state) = spec_route config state
   \<and> (remaining_steps state \<le> 0 \<longrightarrow> reflection_router config state = ''end'')
   \<and> (reflection_enabled config \<longrightarrow>
        map_sum id decision_of_target (next_node (build_graph config) reflection_agent state)
          = Inr (spec_route config state))"
proof (intro conjI impI)
  show "decision_of_key (reflection_router config state) = spec_route config state"
    by (rule router_decision)
  show "reflection_router config state = ''end''" if "remaining_steps state \<le> 0"
    using that by (simp add: reflection_router_def)
  show "map_sum id decision_of_target (next_node (build_graph config) reflection_agent state)
          = Inr (spec_route config state)" if "reflection_enabled config"
    using reflection_router_keys [of config state]
    unfolding next_node_reflection [OF that] router_decision [symmetric]
    by (auto simp add: decision_of_key_def decision_of_target_def role_of_key_def Let_def
        reflection_router_def split: option.splits list.splits if_splits)
qed

theorem reflection_router_spec_witness:
  "reflection_router (scenario_config 5) spent_state = ''end''
   \<and> spec_route (scenario_config 5) spent_state = Terminate
   \<and> spec_route (scenario_config 5) state_with_errors = GoTo RESEARCH
   \<and> next_node (build_graph (scenario_config 5)) reflection_agent state_with_errors
       = Inr (Some research_agent)"
proof -
  have a: "remaining_steps spent_state \<le> 0"
    by (simp add: spent_state_def)
  have b: "reflection_enabled (scenario_config 5)"
    by (simp add: scenario_config_def)
  have c: "next_node (build_graph (scenario_config 5)) reflection_agent state_with_errors
       = Inr (Some research_agent)"
    by code_simp
  have d: "spec_route (scenario_config 5) spent_state = Terminate"
    by code_simp
  from a b c d
    reflection_router_spec [of "scenario_config 5" spent_state]
    reflection_router_spec [of "scenario_config 5" state_with_errors]
  show ?thesis
    by (simp add: decision_of_target_def)
qed

section \<open>Faults and recovery entries\<close>

text \<open>
  C2, as stated, fails for the reflection node: at fault tolerance level 2 a faulting
  reflection invocation records the error and appends nothing to \<open>results\<close>.
\<close>

theorem reflection_fault_no_placeholder:
  "fault_tolerance_level (scenario_config 5) = 2
   \<and> map_sum id results (reflection_agent_node (scenario_config 5) (Some ''boom'') fresh_state)
       = Inr (results fresh_state)
   \<and> map_sum id errors (reflection_agent_node (scenario_config 5) (Some ''boom'') fresh_state)
       = Inr (Some [''Error in reflection agent: boom''])"
  by (simp add: scenario_config_def fresh_state_def initial_state_def reflection_agent_node_def
      reflection_agent_except_def add_error_def)

text \<open>
  C2, amended. A faulting invocation of the code, research or planning node appends
  exactly one recovery entry to \<open>results\<close> when the fault tolerance level is at least 2
  and nothing below that; a faulting invocation of the reflection node appends nothing
  at any level. The invocation returns whenever \<open>errors\<close> holds a list.
\<close>

theorem fault_recovery_entry:
  "(code_agent_node config (Some e) state = Inr state' \<longrightarrow>
      results state' = results state @
        (if fault_tolerance_level config \<ge> 2
         then [\<lparr>content = Some ''The code agent encountered an error but is attempting to recover.'',
                citations = Some []\<rparr>]
         else []))
   \<and> (research_agent_node config (Some e) state = Inr state' \<longrightarrow>
      results state' = results state @
        (if fault_tolerance_level config \<ge> 2
         then [\<lparr>content = Some
                  ''The research agent encountered an error but is attempting to recover.'',
                citations = Some []\<rparr>]
         else []))
   \<and> (planning_agent_node config (Some e) state = Inr state' \<longrightarrow>
      results state' = results state @
        (if fault_tolerance_level config \<ge> 2
         then [\<lparr>content = Some
                  ''The planning agent encountered an error but is attempting to recover.'',
                citations = Some []\<rparr>]
         else []))
   \<and> (reflection_agent_node config (Some e) state = Inr state' \<longrightarrow>
      results state' = results state)
   \<and> (errors state \<noteq> None \<longrightarrow>
        (\<exists>s. code_agent_node config (Some e) state = Inr s)
      \<and> (\<exists>s. research_agent_node config (Some e) state = Inr s)
      \<and> (\<exists>s. planning_agent_node config (Some e) state = Inr s)
      \<and> (\<exists>s. reflection_agent_node config (Some e) state = Inr s))"
proof (intro conjI impI)
  assume "errors state \<noteq> None"
  then show "\<exists>s. code_agent_node config (Some e) state = Inr s"
    "\<exists>s. research_agent_node config (Some e) state = Inr s"
    "\<exists>s. planning_agent_node config (Some e) state = Inr s"
    "\<exists>s. reflection_agent_node config (Some e) state = Inr s"
    by (rule node_total)+
qed (auto simp add: node_defs except_defs Let_def split: option.splits)

theorem fault_recovery_entry_witness:
  "code_agent_node (scenario_config 5) (Some ''boom'') fresh_state =
     Inr (fresh_state\<lparr>current_agent := ''code_agent'',
            errors := Some [''Error in code agent: boom''],
            results := [\<lparr>content = Some
                ''The code agent encountered an error but is attempting to recover.'',
              citations = Some []\<rparr>]\<rparr>)
   \<and> results (fresh_state\<lparr>current_agent := ''code_agent'',
            errors := Some [''Error in code agent: boom''],
            results := [\<lparr>content = Some
                ''The code agent encountered an error but is attempting to recover.'',
              citations = Some []\<rparr>]\<rparr>)
       = results fresh_state @
           [\<lparr>content = Some ''The code agent encountered an error but is attempting to recover.'',
             citations = Some []\<rparr>]
   \<and> errors fresh_state \<noteq> None
   \<and> (\<exists>s. reflection_agent_node (scenario_config 5) (Some ''boom'') fresh_state = Inr s)"
proof -
  let ?S = "fresh_state\<lparr>current_agent := ''code_agent'',
            errors := Some [''Error in code agent: boom''],
            results := [\<lparr>content = Some
                ''The code agent encountered an error but is attempting to recover.'',
              citations = Some []\<rparr>]\<rparr>"
  note inst = fault_recovery_entry [of "scenario_config 5" "''boom''" fresh_state ?S]
  have a: "code_agent_node (scenario_config 5) (Some ''boom'') fresh_state = Inr ?S"
    by (simp add: code_agent_node_def except_defs scenario_config_def fresh_state_def
        initial_state_def)
  have c: "errors fresh_state \<noteq> None"
    by (simp add: fresh_state_def initial_state_def)
  have ft: "fault_tolerance_level (scenario_config 5) \<ge> 2"
    by (simp add: scenario_config_def)
  from inst have "code_agent_node (scenario_config 5) (Some ''boom'') fresh_state = Inr ?S \<longrightarrow>
      results ?S = results fresh_state @
        (if fault_tolerance_level (scenario_config 5) \<ge> 2
         then [\<lparr>content = Some ''The code agent encountered an error but is attempting to recover.'',
                citations = Some []\<rparr>]
         else [])"
    by (rule conjunct1)
  from this a have "results ?S = results fresh_state @
        (if fault_tolerance_level (scenario_config 5) \<ge> 2
         then [\<lparr>content = Some ''The code agent encountered an error but is attempting to recover.'',
                citations = Some []\<rparr>]
         else [])"
    by (rule mp)
  then have b: "results ?S = results fresh_state @
         [\<lparr>content = Some ''The code agent encountered an error but is attempting to recover.'',
           citations = Some []\<rparr>]"
    by (simp only: ft if_True)
  from inst c have "\<exists>s. reflection_agent_node (scenario_config 5) (Some ''boom'') fresh_state = Inr s"
    by blast
  with a b c show ?thesis by (intro conjI)
qed

section \<open>The stream and the synchronous run\<close>

text \<open>
  C3. The stream yields one element per node invocation. When it is finished the
  synchronous run returns, the number of node invocations of the run is the number of
  streamed elements, and the response of the run is the last streamed element; with a
  budget above zero the finished stream has at least one element, and with no budget
  nothing is invoked or streamed and the run renders the initial state. The run raises
  exactly when the stream raises, and it has not returned exactly when the stream is
  still pending.
\<close>

theorem run_stream_refines_run:
  "run_counted fuel config ctx faults =
     (case run_stream fuel config ctx faults of
        (responses, Finished) \<Rightarrow>
          Some (Inr (last (render (initial_state config ctx) # responses), length responses))
      | (responses, Raised e) \<Rightarrow> Some (Inl e)
      | (responses, Pending) \<Rightarrow> None)
   \<and> (0 < max_iterations config \<longrightarrow>
        run_counted fuel config ctx faults =
          (case run_stream fuel config ctx faults of
             (responses, Finished) \<Rightarrow> Some (Inr (last responses, length responses))
           | (responses, Raised e) \<Rightarrow> Some (Inl e)
           | (responses, Pending) \<Rightarrow> None)
        \<and> (snd (run_stream fuel config ctx faults) = Finished \<longrightarrow>
             fst (run_stream fuel config ctx faults) \<noteq> [])
        \<and> (run fuel config ctx faults = Some (Inr r) \<longleftrightarrow>
             (\<exists>responses. run_stream fuel config ctx faults = (responses, Finished)
                \<and> responses \<noteq> [] \<and> last responses = r)))"
proof -
  let ?s0 = "initial_state config ctx"
  obtain responses e where rs: "run_stream fuel config ctx faults = (responses, e)"
    by (cases "run_stream fuel config ctx faults")
  have general: "run_counted fuel config ctx faults =
     (case (responses, e) of
        (responses, Finished) \<Rightarrow>
          Some (Inr (last (render ?s0 # responses), length responses))
      | (responses, Raised e) \<Rightarrow> Some (Inl e)
      | (responses, Pending) \<Rightarrow> None)"
  proof (cases "build_workflow config")
    case (Inl x)
    with rs show ?thesis by (auto simp add: run_counted_def run_stream_def)
  next
    case (Inr g)
    obtain events where a: "astream fuel g faults (entry_point g) 0 ?s0 = (events, e)"
      and r: "responses = map render events"
      using Inr rs by (auto simp add: run_stream_def split: prod.splits)
    from Inr a r invoke_astream [of fuel g faults "entry_point g" 0 ?s0]
    show ?thesis
      by (cases e) (simp_all add: run_counted_def last_map)
  qed
  have started: "responses \<noteq> []" if "0 < max_iterations config" "e = Finished"
  proof (cases "build_workflow config")
    case (Inl x)
    with rs that show ?thesis by (simp add: run_stream_def)
  next
    case (Inr g)
    with build_workflow_Inr obtain n where n: "entry_point g = Some n" by blast
    obtain events where a: "astream fuel g faults (Some n) 0 ?s0 = (events, e)"
      and r: "responses = map render events"
      using Inr rs n by (auto simp add: run_stream_def split: prod.splits)
    from that have "0 < remaining_steps ?s0" by (simp add: initial_state_def)
    from astream_started [of fuel g faults n 0 ?s0] a that(2) this have "events \<noteq> []"
      by simp
    with r show ?thesis by simp
  qed
  have positive: "run_counted fuel config ctx faults =
          (case (responses, e) of
             (responses, Finished) \<Rightarrow> Some (Inr (last responses, length responses))
           | (responses, Raised e) \<Rightarrow> Some (Inl e)
           | (responses, Pending) \<Rightarrow> None)
        \<and> (e = Finished \<longrightarrow> responses \<noteq> [])
        \<and> (run fuel config ctx faults = Some (Inr r) \<longleftrightarrow>
             e = Finished \<and> responses \<noteq> [] \<and> last responses = r)"
    if pos: "0 < max_iterations config"
    using general started [OF pos]
    by (cases e) (auto simp add: run_def)
  from general positive show ?thesis
    unfolding rs by simp
qed

theorem run_stream_refines_run_witness:
  "snd (run_stream 10 (scenario_config 5) login_request (\<lambda>_. None)) = Finished
   \<and> length (fst (run_stream 10 (scenario_config 5) login_request (\<lambda>_. None))) = 4
   \<and> run_counted 10 (scenario_config 5) login_request (\<lambda>_. None) =
        Some (Inr (last (fst (run_stream 10 (scenario_config 5) login_request (\<lambda>_. None))), 4))"
proof -
  have a: "snd (run_stream 10 (scenario_config 5) login_request (\<lambda>_. None)) = Finished"
    by code_simp
  have b: "length (fst (run_stream 10 (scenario_config 5) login_request (\<lambda>_. None))) = 4"
    by code_simp
  have c: "0 < max_iterations (scenario_config 5)"
    by (simp add: scenario_config_def)
  from run_stream_refines_run [of 10 "scenario_config 5" login_request "\<lambda>_. None"] c
  have "run_counted 10 (scenario_config 5) login_request (\<lambda>_. None) =
          (case run_stream 10 (scenario_config 5) login_request (\<lambda>_. None) of
             (responses, Finished) \<Rightarrow> Some (Inr (last responses, length responses))
           | (responses, Raised e) \<Rightarrow> Some (Inl e)
           | (responses, Pending) \<Rightarrow> None)"
    by blast
  with a b show ?thesis
    by (cases "run_stream 10 (scenario_config 5) login_request (\<lambda>_. None)") simp
qed

section \<open>Query and context are never written\<close>

lemma stream_frame:
  "\<forall>s \<in> set (fst (astream fuel (build_graph config) faults cur k state)).
      query s = query state \<and> context s = context state"
proof (rule astream_invariant [where I = "\<lambda>s. query s = query state \<and> context s = context state"])
  fix n f s s'
  assume "invoke_node (build_graph config) n f s = Inr s'"
    and "query s = query state \<and> context s = context state"
  with invoke_node_cases [of config n f s s'] node_frame [of config f s s']
  show "query s' = query state \<and> context s' = context state" by auto
qed simp_all

text \<open>
  C8. An invocation of any of the four nodes, whether its logic runs through or faults,
  returns a state with the \<open>query\<close> and the \<open>context\<close> it was given; so every state that a
  run passes through has the query and the context of the state the run started from.
\<close>

theorem nodes_keep_query_and_context:
  "(code_agent_node config fault state = Inr state' \<longrightarrow>
      query state' = query state \<and> context state' = context state)
   \<and> (research_agent_node config fault state = Inr state' \<longrightarrow>
      query state' = query state \<and> context state' = context state)
   \<and> (planning_agent_node config fault state = Inr state' \<longrightarrow>
      query state' = query state \<and> context state' = context state)
   \<and> (reflection_agent_node config fault state = Inr state' \<longrightarrow>
      query state' = query state \<and> context state' = context state)
   \<and> (\<forall>s \<in> set (fst (astream fuel (build_graph config) faults cur k state)).
        query s = query state \<and> context s = context state)"
  using node_frame [of config fault state state'] stream_frame [of fuel config faults cur k state]
  by blast

theorem nodes_keep_query_and_context_witness:
  "research_agent_node (scenario_config 5) (Some ''boom'') fresh_state =
     Inr (fresh_state\<lparr>current_agent := ''research_agent'',
            errors := Some [''Error in research agent: boom''],
            results := [\<lparr>content = Some
                ''The research agent encountered an error but is attempting to recover.'',
              citations = Some []\<rparr>]\<rparr>)
   \<and> query (fresh_state\<lparr>current_agent := ''research_agent'',
            errors := Some [''Error in research agent: boom''],
            results := [\<lparr>content = Some
                ''The research agent encountered an error but is attempting to recover.'',
              citations = Some []\<rparr>]\<rparr>) = query fresh_state
   \<and> length (fst (astream 10 (build_graph (scenario_config 5)) (\<lambda>_. None)
                      (Some planning_agent) 0 fresh_state)) = 4
   \<and> query (last (fst (astream 10 (build_graph (scenario_config 5)) (\<lambda>_. None)
                      (Some planning_agent) 0 fresh_state))) = query fresh_state"
proof -
  let ?S = "fresh_state\<lparr>current_agent := ''research_agent'',
            errors := Some [''Error in research agent: boom''],
            results := [\<lparr>content = Some
                ''The research agent encountered an error but is attempting to recover.'',
              citations = Some []\<rparr>]\<rparr>"
  let ?events = "fst (astream 10 (build_graph (scenario_config 5)) (\<lambda>_. None)
                      (Some planning_agent) 0 fresh_state)"
  note inst = nodes_keep_query_and_context [of "scenario_config 5" "Some ''boom''" fresh_state ?S
      10 "\<lambda>_. None" "Some planning_agent" 0]
  have a: "research_agent_node (scenario_config 5) (Some ''boom'') fresh_state = Inr ?S"
    by (simp add: research_agent_node_def except_defs scenario_config_def fresh_state_def
        initial_state_def)
  have b: "length ?events = 4"
    by code_simp
  then have "?events \<noteq> []" by auto
  then have c: "last ?events \<in> set ?events" by (rule last_in_set)
  from inst a have d: "query ?S = query fresh_state" by blast
  from inst c have e: "query (last ?events) = query fresh_state" by blast
  from a b d e show ?thesis by (intro conjI)
qed

section \<open>The fault path of a node\<close>

text \<open>
  C9. When the logic of a node faults, the invocation is the node's \<^verbatim>\<open>except\<close> block run
  on the state in which \<^verbatim>\<open>current_agent\<close> has been set (that assignment stands before the
  \<^verbatim>\<open>try\<close>). The state that is returned has the \<open>remaining_steps\<close> and the \<open>history\<close> it was
  given. The \<^verbatim>\<open>except\<close> block changes \<open>errors\<close>, to which it appends the message, and, in
  the code, research and planning nodes at fault tolerance level 2 or more, \<open>results\<close>;
  it changes nothing else.
\<close>

theorem fault_path_effect:
  "(code_agent_node config (Some e) state = Inr state' \<longrightarrow>
      remaining_steps state' = remaining_steps state \<and> history state' = history state)
   \<and> (research_agent_node config (Some e) state = Inr state' \<longrightarrow>
      remaining_steps state' = remaining_steps state \<and> history state' = history state)
   \<and> (planning_agent_node config (Some e) state = Inr state' \<longrightarrow>
      remaining_steps state' = remaining_steps state \<and> history state' = history state)
   \<and> (reflection_agent_node config (Some e) state = Inr state' \<longrightarrow>
      remaining_steps state' = remaining_steps state \<and> history state' = history state)
   \<and> code_agent_node config (Some e) state =
        code_agent_except config e (state\<lparr>current_agent := ''code_agent''\<rparr>)
   \<and> research_agent_node config (Some e) state =
        research_agent_except config e (state\<lparr>current_agent := ''research_agent''\<rparr>)
   \<and> planning_agent_node config (Some e) state =
        planning_agent_except config e (state\<lparr>current_agent := ''planning_agent''\<rparr>)
   \<and> reflection_agent_node config (Some e) state =
        reflection_agent_except config e (state\<lparr>current_agent := ''reflection_agent''\<rparr>)
   \<and> (code_agent_except config e state = Inr state' \<longrightarrow>
        (\<exists>errs. errors state = Some errs \<and>
           state' = state\<lparr>errors := Some (errs @ [''Error in code agent: '' @ e]),
                          results := results state @
                            (if fault_tolerance_level config \<ge> 2
                             then [\<lparr>content = Some
                               ''The code agent encountered an error but is attempting to recover.'',
                               citations = Some []\<rparr>]
                             else [])\<rparr>))
   \<and> (research_agent_except config e state = Inr state' \<longrightarrow>
        (\<exists>errs. errors state = Some errs \<and>
           state' = state\<lparr>errors := Some (errs @ [''Error in research agent: '' @ e]),
                          results := results state @
                            (if fault_tolerance_level config \<ge> 2
                             then [\<lparr>content = Some
                               ''The research agent encountered an error but is attempting to recover.'',
                               citations = Some []\<rparr>]
                             else [])\<rparr>))
   \<and> (planning_agent_except config e state = Inr state' \<longrightarrow>
        (\<exists>errs. errors state = Some errs \<and>
           state' = state\<lparr>errors := Some (errs @ [''Error in planning agent: '' @ e]),
                          results := results state @
                            (if fault_tolerance_level config \<ge> 2
                             then [\<lparr>content = Some
                               ''The planning agent encountered an error but is attempting to recover.'',
                               citations = Some []\<rparr>]
                             else [])\<rparr>))
   \<and> (reflection_agent_except config e state = Inr state' \<longrightarrow>
        (\<exists>errs. errors state = Some errs \<and>
           state' = state\<lparr>errors := Some (errs @ [''Error in reflection agent: '' @ e])\<rparr>))"
proof -
  have nodes:
    "code_agent_node config (Some e) state =
        code_agent_except config e (state\<lparr>current_agent := ''code_agent''\<rparr>)"
    "research_agent_node config (Some e) state =
        research_agent_except config e (state\<lparr>current_agent := ''research_agent''\<rparr>)"
    "planning_agent_node config (Some e) state =
        planning_agent_except config e (state\<lparr>current_agent := ''planning_agent''\<rparr>)"
    "reflection_agent_node config (Some e) state =
        reflection_agent_except config e (state\<lparr>current_agent := ''reflection_agent''\<rparr>)"
    by (simp_all add: node_defs)
  have budget: "remaining_steps state' = remaining_steps state"
    if "code_agent_node config (Some e) state = Inr state'
         \<or> research_agent_node config (Some e) state = Inr state'
         \<or> planning_agent_node config (Some e) state = Inr state'
         \<or> reflection_agent_node config (Some e) state = Inr state'"
    using node_budget [OF that] by simp
  have hist: "history state' = history state"
    if "code_agent_node config (Some e) state = Inr state'
         \<or> research_agent_node config (Some e) state = Inr state'
         \<or> planning_agent_node config (Some e) state = Inr state'
         \<or> reflection_agent_node config (Some e) state = Inr state'"
    using that by (auto simp add: node_defs except_defs split: option.splits if_splits)
  have ex1: "code_agent_except config e state = Inr state' \<longrightarrow>
        (\<exists>errs. errors state = Some errs \<and>
           state' = state\<lparr>errors := Some (errs @ [''Error in code agent: '' @ e]),
                          results := results state @
                            (if fault_tolerance_level config \<ge> 2
                             then [\<lparr>content = Some
                               ''The code agent encountered an error but is attempting to recover.'',
                               citations = Some []\<rparr>]
                             else [])\<rparr>)"
    by (auto simp add: except_defs split: option.splits)
  have ex2: "research_agent_except config e state = Inr state' \<longrightarrow>
        (\<exists>errs. errors state = Some errs \<and>
           state' = state\<lparr>errors := Some (errs @ [''Error in research agent: '' @ e]),
                          results := results state @
                            (if fault_tolerance_level config \<ge> 2
                             then [\<lparr>content = Some
                               ''The research agent encountered an error but is attempting to recover.'',
                               citations = Some []\<rparr>]
                             else [])\<rparr>)"
    by (auto simp add: except_defs split: option.splits)
  have ex3: "planning_agent_except config e state = Inr state' \<longrightarrow>
        (\<exists>errs. errors state = Some errs \<and>
           state' = state\<lparr>errors := Some (errs @ [''Error in planning agent: '' @ e]),
                          results := results state @
                            (if fault_tolerance_level config \<ge> 2
                             then [\<lparr>content = Some
                               ''The planning agent encountered an error but is attempting to recover.'',
                               citations = Some []\<rparr>]
                             else [])\<rparr>)"
    by (auto simp add: except_defs split: option.splits)
  have ex4: "reflection_agent_except config e state = Inr state' \<longrightarrow>
        (\<exists>errs. errors state = Some errs \<and>
           state' = state\<lparr>errors := Some (errs @ [''Error in reflection agent: '' @ e])\<rparr>)"
    by (auto simp add: except_defs split: option.splits)
  from budget hist have frame:
    "code_agent_node config (Some e) state = Inr state' \<longrightarrow>
      remaining_steps state' = remaining_steps state \<and> history state' = history state"
    "research_agent_node config (Some e) state = Inr state' \<longrightarrow>
      remaining_steps state' = remaining_steps state \<and> history state' = history state"
    "planning_agent_node config (Some e) state = Inr state' \<longrightarrow>
      remaining_steps state' = remaining_steps state \<and> history state' = history state"
    "reflection_agent_node config (Some e) state = Inr state' \<longrightarrow>
      remaining_steps state' = remaining_steps state \<and> history state' = history state"
    by blast+
  from frame nodes ex1 ex2 ex3 ex4 show ?thesis by (intro conjI)
qed

theorem fault_path_effect_witness:
  "planning_agent_node (scenario_config 5) (Some ''boom'') state_with_errors =
     Inr (state_with_errors\<lparr>current_agent := ''planning_agent'',
            errors := Some [''Error in code agent: boom'', ''missing information'',
                            ''Error in planning agent: boom''],
            results := [\<lparr>content = Some
                ''The planning agent encountered an error but is attempting to recover.'',
              citations = Some []\<rparr>]\<rparr>)
   \<and> remaining_steps (state_with_errors\<lparr>current_agent := ''planning_agent'',
            errors := Some [''Error in code agent: boom'', ''missing information'',
                            ''Error in planning agent: boom''],
            results := [\<lparr>content = Some
                ''The planning agent encountered an error but is attempting to recover.'',
              citations = Some []\<rparr>]\<rparr>) = remaining_steps state_with_errors
   \<and> remaining_steps state_with_errors = 3"
proof -
  let ?S = "state_with_errors\<lparr>current_agent := ''planning_agent'',
            errors := Some [''Error in code agent: boom'', ''missing information'',
                            ''Error in planning agent: boom''],
            results := [\<lparr>content = Some
                ''The planning agent encountered an error but is attempting to recover.'',
              citations = Some []\<rparr>]\<rparr>"
  note inst = fault_path_effect [of "scenario_config 5" "''boom''" state_with_errors ?S]
  have a: "planning_agent_node (scenario_config 5) (Some ''boom'') state_with_errors = Inr ?S"
    by (simp add: planning_agent_node_def except_defs scenario_config_def state_with_errors_def
        fresh_state_def initial_state_def)
  from inst a have b: "remaining_steps ?S = remaining_steps state_with_errors" by blast
  have c: "remaining_steps state_with_errors = 3"
    by (simp add: state_with_errors_def)
  from a b c show ?thesis by (intro conjI)
qed

section \<open>The fault-free scenario\<close>

lemma step_from_graph:
  assumes "map_of (nodes (build_graph config)) n = Some f"
    and "f fault state = Inr state'"
    and "state'\<lparr>remaining_steps := remaining_steps state - 1\<rparr> = state''"
    and "next_node (build_graph config) n state'' = Inr t"
  shows "step (build_graph config) n fault state = Inr (t, state'')"
  using assms by (simp add: step_def invoke_node_def Let_def)

text \<open>
  C6. Take a configuration whose enabled roles are Planning, Research and Code, with
  reflection enabled, \<open>max_iterations = 5\<close> and fault tolerance level 2, and a run in which
  no node faults. Given fuel for four invocations the run returns. It invokes Planning,
  Research, Code and Reflection, in this order and nothing else: four invocations. The
  final state has no errors, the router answers \<open>end\<close> on it, its \<open>results\<close> are the four
  entries of the four nodes, and the response text is their contents with blank lines
  between them. The stream yields the four states and is finished.
\<close>

theorem scenario_run:
  assumes types: "set (agent_types config) = {PLANNING, RESEARCH, CODE}"
    and refl: "reflection_enabled config"
    and iters: "max_iterations config = 5"
    and level: "fault_tolerance_level config = 2"
    and fuel: "4 \<le> fuel"
  shows "\<exists>g s1 s2 s3 s4.
      build_workflow config = Inr g
    \<and> entry_point g = Some planning_agent
    \<and> astream fuel g (\<lambda>_. None) (entry_point g) 0 (initial_state config ctx)
        = ([s1, s2, s3, s4], Finished)
    \<and> invoke fuel g (\<lambda>_. None) (entry_point g) 0 (initial_state config ctx)
        = Some (Inr (s4, 4))
    \<and> map current_agent [s1, s2, s3, s4]
        = [''planning_agent'', ''research_agent'', ''code_agent'', ''reflection_agent'']
    \<and> errors s4 = Some []
    \<and> reflection_router config s4 = ''end''
    \<and> map content (results s4)
        = [Some (''Planning agent processed query: '' @ ctx_query ctx),
           Some (''Research agent processed query: '' @ ctx_query ctx),
           Some (''Code agent processed query: '' @ ctx_query ctx),
           Some ''Reflection agent reviewed the results and found them satisfactory.'']
    \<and> remaining_steps s4 = 1
    \<and> run_counted fuel config ctx (\<lambda>_. None) = Some (Inr (render s4, 4))
    \<and> run_stream fuel config ctx (\<lambda>_. None) = (map render [s1, s2, s3, s4], Finished)
    \<and> response (render s4)
        = ''Planning agent processed query: '' @ ctx_query ctx @ [CHR 0x0A, CHR 0x0A]
          @ ''Research agent processed query: '' @ ctx_query ctx @ [CHR 0x0A, CHR 0x0A]
          @ ''Code agent processed query: '' @ ctx_query ctx @ [CHR 0x0A, CHR 0x0A]
          @ ''Reflection agent reviewed the results and found them satisfactory.''"
proof -
  let ?g = "build_graph config"
  define s0 where "s0 = initial_state config ctx"
  define s1 where "s1 = update_state ''planning_agent''
      \<lparr>content = Some (''Planning agent processed query: '' @ ctx_query ctx),
       citations = Some []\<rparr> (s0\<lparr>current_agent := ''planning_agent''\<rparr>)"
  define s2 where "s2 = update_state ''research_agent''
      \<lparr>content = Some (''Research agent processed query: '' @ ctx_query ctx),
       citations = Some [''research_source_1'', ''research_source_2'']\<rparr>
      (s1\<lparr>current_agent := ''research_agent''\<rparr>)"
  define s3 where "s3 = update_state ''code_agent''
      \<lparr>content = Some (''Code agent processed query: '' @ ctx_query ctx),
       citations = Some []\<rparr> (s2\<lparr>current_agent := ''code_agent''\<rparr>)"
  define s4 where "s4 = update_state ''reflection_agent''
      \<lparr>content = Some ''Reflection agent reviewed the results and found them satisfactory.'',
       citations = Some []\<rparr> (s3\<lparr>current_agent := ''reflection_agent''\<rparr>)"
  from types have en: "PLANNING \<in> set (agent_types config)"
    "RESEARCH \<in> set (agent_types config)" "CODE \<in> set (agent_types config)"
    by simp_all
  have q: "query s0 = ctx_query ctx" "query s1 = ctx_query ctx" "query s2 = ctx_query ctx"
    by (simp_all add: s0_def s1_def s2_def initial_state_def update_state_def)
  have e: "errors s3 = Some []" "errors s4 = Some []"
    by (simp_all add: s0_def s1_def s2_def s3_def s4_def initial_state_def update_state_def)
  have rem: "remaining_steps s4 = 1"
    using iters
    by (simp add: s0_def s1_def s2_def s3_def s4_def initial_state_def update_state_def)
  have router: "reflection_router config s4 = ''end''"
    using e by (simp add: reflection_router_def)
  have entry: "entry_point ?g = Some planning_agent"
    using en by (simp add: graph_defs Let_def)
  have reg: "fst ` set (nodes ?g) = {code_agent, research_agent, planning_agent, reflection_agent}"
    using en refl by (auto simp add: graph_defs Let_def)
  have "compile ?g = Inr ?g"
    unfolding compile_def registered_def reg entry
    using en refl by (simp add: graph_defs Let_def)
  then have built: "build_workflow config = Inr ?g"
    by (simp add: build_workflow_def)
  have n1: "planning_agent_node config None s0 = Inr s1"
    by (simp add: planning_agent_node_def s1_def q)
  have n2: "research_agent_node config None s1 = Inr s2"
    by (simp add: research_agent_node_def s2_def q)
  have n3: "code_agent_node config None s2 = Inr s3"
    by (simp add: code_agent_node_def s3_def q)
  have n4: "reflection_agent_node config None s3 = Inr s4"
    using e by (simp add: reflection_agent_node_def s4_def)
  have rem0: "remaining_steps s0 = 5" "remaining_steps s1 = 4" "remaining_steps s2 = 3"
    "remaining_steps s3 = 2"
    using iters
    by (simp_all add: s0_def s1_def s2_def s3_def initial_state_def update_state_def)
  then have p: "\<not> remaining_steps s0 \<le> 0" "\<not> remaining_steps s1 \<le> 0"
    "\<not> remaining_steps s2 \<le> 0" "\<not> remaining_steps s3 \<le> 0"
    by simp_all
  have o: "s1\<lparr>remaining_steps := remaining_steps s0 - 1\<rparr> = s1"
    "s2\<lparr>remaining_steps := remaining_steps s1 - 1\<rparr> = s2"
    "s3\<lparr>remaining_steps := remaining_steps s2 - 1\<rparr> = s3"
    "s4\<lparr>remaining_steps := remaining_steps s3 - 1\<rparr> = s4"
    by (simp_all add: s1_def s2_def s3_def s4_def update_state_def)
  have st1: "step ?g planning_agent None s0 = Inr (Some research_agent, s1)"
    apply (rule step_from_graph [where f = "planning_agent_node config", OF _ n1 o(1)])
    using en refl by (simp_all add: nodes_build_graph next_node_def edges_build_graph)
  have st2: "step ?g research_agent None s1 = Inr (Some code_agent, s2)"
    apply (rule step_from_graph [where f = "research_agent_node config", OF _ n2 o(2)])
    using en refl by (simp_all add: nodes_build_graph next_node_def edges_build_graph)
  have st3: "step ?g code_agent None s2 = Inr (Some reflection_agent, s3)"
    apply (rule step_from_graph [where f = "code_agent_node config", OF _ n3 o(3)])
    using en refl by (simp_all add: nodes_build_graph next_node_def edges_build_graph)
  have st4: "step ?g reflection_agent None s3 = Inr (END, s4)"
    apply (rule step_from_graph [where f = "reflection_agent_node config", OF _ n4 o(4)])
    using en refl router by (simp_all add: nodes_build_graph next_node_reflection)
  from fuel have m: "fuel = Suc (Suc (Suc (Suc (fuel - 4))))"
    by arith
  have a4: "\<And>k. astream (Suc (fuel - 4)) ?g (\<lambda>_. None) (Some reflection_agent) k s3
      = ([s4], Finished)"
    by (simp add: st4 p)
  have a3: "\<And>k. astream (Suc (Suc (fuel - 4))) ?g (\<lambda>_. None) (Some code_agent) k s2
      = ([s3, s4], Finished)"
    by (subst astream.simps(3)) (simp only: p if_False st3 a4 sum.case prod.case)
  have a2: "\<And>k. astream (Suc (Suc (Suc (fuel - 4)))) ?g (\<lambda>_. None) (Some research_agent) k s1
      = ([s2, s3, s4], Finished)"
    by (subst astream.simps(3)) (simp only: p if_False st2 a3 sum.case prod.case)
  have "astream (Suc (Suc (Suc (Suc (fuel - 4))))) ?g (\<lambda>_. None) (Some planning_agent) 0 s0
      = ([s1, s2, s3, s4], Finished)"
    by (subst astream.simps(3)) (simp only: p if_False st1 a2 sum.case prod.case)
  with m have stream: "astream fuel ?g (\<lambda>_. None) (Some planning_agent) 0 s0
      = ([s1, s2, s3, s4], Finished)"
    by simp
  have inv: "invoke fuel ?g (\<lambda>_. None) (Some planning_agent) 0 s0 = Some (Inr (s4, 4))"
    unfolding invoke_astream stream by simp
  have agents: "map current_agent [s1, s2, s3, s4]
        = [''planning_agent'', ''research_agent'', ''code_agent'', ''reflection_agent'']"
    by (simp add: s1_def s2_def s3_def s4_def update_state_def)
  have res: "results s4 =
     [\<lparr>content = Some (''Planning agent processed query: '' @ ctx_query ctx),
       citations = Some []\<rparr>,
      \<lparr>content = Some (''Research agent processed query: '' @ ctx_query ctx),
       citations = Some [''research_source_1'', ''research_source_2'']\<rparr>,
      \<lparr>content = Some (''Code agent processed query: '' @ ctx_query ctx),
       citations = Some []\<rparr>,
      \<lparr>content = Some ''Reflection agent reviewed the results and found them satisfactory.'',
       citations = Some []\<rparr>]"
    by (simp add: s0_def s1_def s2_def s3_def s4_def update_state_def initial_state_def)
  have contents: "map content (results s4)
        = [Some (''Planning agent processed query: '' @ ctx_query ctx),
           Some (''Research agent processed query: '' @ ctx_query ctx),
           Some (''Code agent processed query: '' @ ctx_query ctx),
           Some ''Reflection agent reviewed the results and found them satisfactory.'']"
    unfolding res by simp
  have rendered: "response (render s4)
        = ''Planning agent processed query: '' @ ctx_query ctx @ [CHR 0x0A, CHR 0x0A]
          @ ''Research agent processed query: '' @ ctx_query ctx @ [CHR 0x0A, CHR 0x0A]
          @ ''Code agent processed query: '' @ ctx_query ctx @ [CHR 0x0A, CHR 0x0A]
          @ ''Reflection agent reviewed the results and found them satisfactory.''"
    unfolding render_def format_response_def res by simp
  have rc: "run_counted fuel config ctx (\<lambda>_. None) = Some (Inr (render s4, 4))"
    using built entry inv by (simp add: run_counted_def s0_def)
  have rs: "run_stream fuel config ctx (\<lambda>_. None) = (map render [s1, s2, s3, s4], Finished)"
    using built entry stream by (simp add: run_stream_def s0_def)
  have "build_workflow config = Inr ?g
    \<and> entry_point ?g = Some planning_agent
    \<and> astream fuel ?g (\<lambda>_. None) (entry_point ?g) 0 (initial_state config ctx)
        = ([s1, s2, s3, s4], Finished)
    \<and> invoke fuel ?g (\<lambda>_. None) (entry_point ?g) 0 (initial_state config ctx)
        = Some (Inr (s4, 4))
    \<and> map current_agent [s1, s2, s3, s4]
        = [''planning_agent'', ''research_agent'', ''code_agent'', ''reflection_agent'']
    \<and> errors s4 = Some []
    \<and> reflection_router config s4 = ''end''
    \<and> map content (results s4)
        = [Some (''Planning agent processed query: '' @ ctx_query ctx),
           Some (''Research agent processed query: '' @ ctx_query ctx),
           Some (''Code agent processed query: '' @ ctx_query ctx),
           Some ''Reflection agent reviewed the results and found them satisfactory.'']
    \<and> remaining_steps s4 = 1
    \<and> run_counted fuel config ctx (\<lambda>_. None) = Some (Inr (render s4, 4))
    \<and> run_stream fuel config ctx (\<lambda>_. None) = (map render [s1, s2, s3, s4], Finished)
    \<and> response (render s4)
        = ''Planning agent processed query: '' @ ctx_query ctx @ [CHR 0x0A, CHR 0x0A]
          @ ''Research agent processed query: '' @ ctx_query ctx @ [CHR 0x0A, CHR 0x0A]
          @ ''Code agent processed query: '' @ ctx_query ctx @ [CHR 0x0A, CHR 0x0A]
          @ ''Reflection agent reviewed the results and found them satisfactory.''"
    unfolding entry s0_def [symmetric]
    using built stream inv agents e(2) router contents rem rc rs rendered
    by simp
  then show ?thesis
    by - (rule exI [of _ ?g], rule exI [of _ s1], rule exI [of _ s2], rule exI [of _ s3],
        rule exI [of _ s4], assumption)
qed

theorem scenario_run_witness:
  "\<exists>r. run_counted 4 (scenario_config 5) login_request (\<lambda>_. None) = Some (Inr (r, 4))
     \<and> response r =
         ''Planning agent processed query: build a login page'' @ [CHR 0x0A, CHR 0x0A]
         @ ''Research agent processed query: build a login page'' @ [CHR 0x0A, CHR 0x0A]
         @ ''Code agent processed query: build a login page'' @ [CHR 0x0A, CHR 0x0A]
         @ ''Reflection agent reviewed the results and found them satisfactory.''"
proof -
  have h: "set (agent_types (scenario_config 5)) = {PLANNING, RESEARCH, CODE}"
    "reflection_enabled (scenario_config 5)"
    "max_iterations (scenario_config 5) = 5"
    "fault_tolerance_level (scenario_config 5) = 2"
    "(4::nat) \<le> 4"
    by (auto simp add: scenario_config_def)
  from scenario_run [OF h, of login_request]
  obtain s4 where
    "run_counted 4 (scenario_config 5) login_request (\<lambda>_. None) = Some (Inr (render s4, 4))"
    "response (render s4)
        = ''Planning agent processed query: '' @ ctx_query login_request @ [CHR 0x0A, CHR 0x0A]
          @ ''Research agent processed query: '' @ ctx_query login_request @ [CHR 0x0A, CHR 0x0A]
          @ ''Code agent processed query: '' @ ctx_query login_request @ [CHR 0x0A, CHR 0x0A]
          @ ''Reflection agent reviewed the results and found them satisfactory.''"
    by (elim exE conjE)
  then show ?thesis
    by (intro exI [of _ "render s4"]) (simp add: login_request_def)
qed

section \<open>The iteration budget and the number of node invocations\<close>

text \<open>
  C1. Let \<open>N\<close> be \<open>max_iterations\<close>, a number that is not negative. Every run, synchronous
  or streaming, makes at most \<open>N\<close> node invocations in all, retries of the reflection
  loop included. The ceiling is the engine's own: for any graph, whatever its nodes do
  to the state and whether or not they decrement the budget, and for any sequence of
  faults, the engine makes no more invocations than the budget it starts with, and the
  budget falls by exactly one with each invocation. With fuel for \<open>N\<close> invocations the run
  returns and the stream comes to its end.
\<close>

theorem invocations_within_budget:
  "int (length (fst (astream fuel g faults cur k state))) \<le> max 0 (remaining_steps state)
   \<and> remaining_steps (last (state # fst (astream fuel g faults cur k state)))
       = remaining_steps state - int (length (fst (astream fuel g faults cur k state)))
   \<and> int (length (fst (run_stream fuel config ctx faults))) \<le> max 0 (max_iterations config)
   \<and> (run_counted fuel config ctx faults = Some (Inr (resp, n)) \<longrightarrow>
        int n \<le> max 0 (max_iterations config))
   \<and> (0 \<le> max_iterations config \<longrightarrow>
        int (length (fst (run_stream fuel config ctx faults))) \<le> max_iterations config
        \<and> (run_counted fuel config ctx faults = Some (Inr (resp, n)) \<longrightarrow>
             int n \<le> max_iterations config))
   \<and> (nat (max_iterations config) \<le> fuel \<longrightarrow>
        run_counted fuel config ctx faults \<noteq> None
        \<and> snd (run_stream fuel config ctx faults) \<noteq> Pending)"
proof -
  let ?N = "max_iterations config"
  let ?s0 = "initial_state config ctx"
  have s0: "remaining_steps ?s0 = ?N"
    by (simp add: initial_state_def)
  have stream: "int (length (fst (run_stream fuel config ctx faults))) \<le> max 0 ?N"
  proof (cases "build_workflow config")
    case (Inl e)
    then show ?thesis by (simp add: run_stream_def)
  next
    case (Inr w)
    with astream_ceiling [of fuel w faults "entry_point w" 0 ?s0] s0 show ?thesis
      by (simp add: run_stream_def case_prod_unfold)
  qed
  have counted: "int n \<le> max 0 ?N"
    if r: "run_counted fuel config ctx faults = Some (Inr (resp, n))"
  proof (cases "build_workflow config")
    case (Inl e)
    with r show ?thesis by (simp add: run_counted_def)
  next
    case (Inr w)
    obtain events e where a: "astream fuel w faults (entry_point w) 0 ?s0 = (events, e)"
      by (cases "astream fuel w faults (entry_point w) 0 ?s0")
    from r Inr a invoke_astream [of fuel w faults "entry_point w" 0 ?s0]
    have "n = length events"
      by (cases e) (auto simp add: run_counted_def)
    with astream_ceiling [of fuel w faults "entry_point w" 0 ?s0] a s0 show ?thesis
      by simp
  qed
  have returns: "run_counted fuel config ctx faults \<noteq> None
        \<and> snd (run_stream fuel config ctx faults) \<noteq> Pending"
    if f: "nat ?N \<le> fuel"
  proof (cases "build_workflow config")
    case (Inl e)
    then show ?thesis by (simp add: run_counted_def run_stream_def)
  next
    case (Inr w)
    obtain events e where a: "astream fuel w faults (entry_point w) 0 ?s0 = (events, e)"
      by (cases "astream fuel w faults (entry_point w) 0 ?s0")
    from f s0 astream_returns [of ?s0 fuel w faults "entry_point w" 0] a
    have e: "e \<noteq> Pending" by simp
    from Inr a e invoke_astream [of fuel w faults "entry_point w" 0 ?s0]
    have "run_counted fuel config ctx faults \<noteq> None"
      by (cases e) (simp_all add: run_counted_def)
    moreover from Inr a e have "snd (run_stream fuel config ctx faults) \<noteq> Pending"
      by (simp add: run_stream_def)
    ultimately show ?thesis by simp
  qed
  from astream_ceiling [of fuel g faults cur k state] stream counted returns
  show ?thesis by auto
qed

theorem invocations_within_budget_witness:
  "run_counted 5 (scenario_config 5) login_request
      (\<lambda>k. if k = 2 \<or> k = 4 then Some ''boom'' else None)
     = Some (Inr (last (fst (run_stream 5 (scenario_config 5) login_request
                                (\<lambda>k. if k = 2 \<or> k = 4 then Some ''boom'' else None))), 5))
   \<and> max_iterations (scenario_config 5) = 5
   \<and> int 5 \<le> max_iterations (scenario_config 5)
   \<and> map_option (map_sum id snd)
        (run_counted 1 (scenario_config 1) login_request (\<lambda>_. None)) = Some (Inr 1)"
proof -
  let ?F = "\<lambda>k::nat. if k = 2 \<or> k = 4 then Some ''boom'' else None"
  have a: "run_counted 5 (scenario_config 5) login_request ?F
     = Some (Inr (last (fst (run_stream 5 (scenario_config 5) login_request ?F)), 5))"
    by code_simp
  have b: "max_iterations (scenario_config 5) = 5"
    by (simp add: scenario_config_def)
  have c: "map_option (map_sum id snd)
        (run_counted 1 (scenario_config 1) login_request (\<lambda>_. None)) = Some (Inr 1)"
    by code_simp
  from invocations_within_budget [of 5 "build_graph (scenario_config 5)" ?F
      "Some planning_agent" 0 fresh_state "scenario_config 5" login_request
      "last (fst (run_stream 5 (scenario_config 5) login_request ?F))" 5] a b
  have d: "int 5 \<le> max_iterations (scenario_config 5)"
    by simp
  from a b c d show ?thesis by (intro conjI)
qed

section \<open>Tool calls\<close>

lemma collect_tool_calls_none:
  "\<forall>h \<in> set hs. tool_calls h = Some [] \<Longrightarrow> collect_tool_calls hs acc = acc"
  by (induction hs arbitrary: acc) simp_all

lemma no_tool_calls_kept:
  assumes "invoke_node (build_graph config) n f s = Inr s'"
    and "\<forall>h \<in> set (history s). tool_calls h = Some []"
  shows "\<forall>h \<in> set (history s'). tool_calls h = Some []"
  using node_history [of config f s s'] invoke_node_cases [OF assms(1)] assms(2)
  by auto

lemma stream_no_tool_calls:
  "\<forall>h \<in> set (history state). tool_calls h = Some [] \<Longrightarrow>
   \<forall>s \<in> set (fst (astream fuel (build_graph config) faults cur k state)).
      \<forall>h \<in> set (history s). tool_calls h = Some []"
proof (rule astream_invariant [where I = "\<lambda>s. \<forall>h \<in> set (history s). tool_calls h = Some []"])
  fix n f s s'
  assume "invoke_node (build_graph config) n f s = Inr s'"
    and "\<forall>h \<in> set (history s). tool_calls h = Some []"
  then show "\<forall>h \<in> set (history s'). tool_calls h = Some []"
    by (rule no_tool_calls_kept)
qed simp_all

text \<open>
  C10. A node invocation leaves \<open>history\<close> as it is or appends one entry whose tool-call
  list is empty. Hence every streamed response, and the response that the run returns,
  has an empty list of tool calls, for every configuration, request and fault sequence.
\<close>

theorem run_has_no_tool_calls:
  "(invoke_node (build_graph config) n fault state = Inr state' \<longrightarrow>
      history state' = history state
      \<or> (\<exists>h. history state' = history state @ [h] \<and> tool_calls h = Some []))
   \<and> (\<forall>r \<in> set (fst (run_stream fuel config ctx faults)). resp_tool_calls r = [])
   \<and> (run fuel config ctx faults = Some (Inr r) \<longrightarrow> resp_tool_calls r = [])"
proof -
  have node: "invoke_node (build_graph config) n fault state = Inr state' \<longrightarrow>
      history state' = history state
      \<or> (\<exists>h. history state' = history state @ [h] \<and> tool_calls h = Some [])"
    using node_history [of config fault state state'] invoke_node_cases [of config n fault state state']
    by blast
  have stream: "\<forall>r \<in> set (fst (run_stream fuel config ctx faults)). resp_tool_calls r = []"
  proof (cases "build_workflow config")
    case (Inl e)
    then show ?thesis by (simp add: run_stream_def)
  next
    case (Inr g)
    with build_workflow_Inr have g: "g = build_graph config" by blast
    have "\<forall>h \<in> set (history (initial_state config ctx)). tool_calls h = Some []"
      by (simp add: initial_state_def)
    from stream_no_tool_calls [OF this, of fuel config faults "entry_point g" 0]
    have "\<forall>s \<in> set (fst (astream fuel g faults (entry_point g) 0 (initial_state config ctx))).
            extract_tool_calls s = []"
      unfolding g by (simp add: extract_tool_calls_def collect_tool_calls_none)
    with Inr show ?thesis
      by (auto simp add: run_stream_def render_def split: prod.splits)
  qed
  have "resp_tool_calls r = []" if "run fuel config ctx faults = Some (Inr r)"
  proof -
    from that run_stream_last obtain responses where
      rs: "run_stream fuel config ctx faults = (responses, Finished)"
      and r: "last (render (initial_state config ctx) # responses) = r"
      by blast
    have "resp_tool_calls (render (initial_state config ctx)) = []"
      by (simp add: render_def extract_tool_calls_def initial_state_def)
    moreover from r have "r = render (initial_state config ctx) \<or> r \<in> set responses"
      by (cases "responses = []") auto
    ultimately show ?thesis using stream rs by auto
  qed
  with node stream show ?thesis by blast
qed

theorem run_has_no_tool_calls_witness:
  "run 10 (scenario_config 5) login_request (\<lambda>_. None) =
     Some (Inr (last (fst (run_stream 10 (scenario_config 5) login_request (\<lambda>_. None)))))
   \<and> resp_tool_calls (last (fst (run_stream 10 (scenario_config 5) login_request (\<lambda>_. None)))) = []
   \<and> invoke_node (build_graph (scenario_config 5)) code_agent None fresh_state =
       Inr (update_state ''code_agent''
              \<lparr>content = Some ''Code agent processed query: build a login page'',
               citations = Some []\<rparr>
              (fresh_state\<lparr>current_agent := ''code_agent''\<rparr>))
   \<and> history fresh_state = []"
proof -
  have a: "run 10 (scenario_config 5) login_request (\<lambda>_. None) =
     Some (Inr (last (fst (run_stream 10 (scenario_config 5) login_request (\<lambda>_. None)))))"
    by code_simp
  have b: "invoke_node (build_graph (scenario_config 5)) code_agent None fresh_state =
       Inr (update_state ''code_agent''
              \<lparr>content = Some ''Code agent processed query: build a login page'',
               citations = Some []\<rparr>
              (fresh_state\<lparr>current_agent := ''code_agent''\<rparr>))"
    by (simp add: invoke_node_def nodes_build_graph code_agent_node_def scenario_config_def
        fresh_state_def initial_state_def login_request_def)
  have c: "history fresh_state = []"
    by (simp add: fresh_state_def initial_state_def)
  from a b c
    run_has_no_tool_calls [of "scenario_config 5" code_agent None fresh_state
      "update_state ''code_agent''
              \<lparr>content = Some ''Code agent processed query: build a login page'',
               citations = Some []\<rparr>
              (fresh_state\<lparr>current_agent := ''code_agent''\<rparr>)"
      10 login_request "\<lambda>_. None"
      "last (fst (run_stream 10 (scenario_config 5) login_request (\<lambda>_. None)))"]
  show ?thesis by blast
qed

end
